theory Spec2Isabelle
  imports Complex_Main "HOL-Library.Multiset"
begin

section \<open>Values of the request and the store\<close>

text \<open>
  Document identifiers (\<^verbatim>\<open>_id\<close>, \<^verbatim>\<open>req.user.id\<close>, \<^verbatim>\<open>productId\<close>) are the
  canonical text of an ObjectId, so \<^verbatim>\<open>toString()\<close> is the identity and
  \<^verbatim>\<open>===\<close> on two identifiers is equality of strings. Dates are milliseconds
  since the epoch. The clock (\<^verbatim>\<open>new Date()\<close>) and the identifier a new document
  gets are inputs of the operation that uses them.
\<close>

type_synonym oid = string
type_synonym date = int

text \<open>
  A JavaScript number, as far as the handlers look at it: they test it for NaN and
  compare it with zero. Rounding of doubles plays no part in either test, so finite
  values are rationals.
\<close>

datatype js_number = NaN | Finite rat | PosInfinity | NegInfinity

fun le_zero :: "js_number \<Rightarrow> bool" where
  "le_zero NaN = False"
| "le_zero (Finite r) = (r \<le> 0)"
| "le_zero PosInfinity = False"
| "le_zero NegInfinity = True"

text \<open>
  The \<^verbatim>\<open>price\<close> field of a request is text. The handlers apply three built-in
  conversions to it: truthiness (\<^verbatim>\<open>!price\<close>), \<^verbatim>\<open>Number(price)\<close> inside
  \<^verbatim>\<open>isNaN(price)\<close>, and \<^verbatim>\<open>parseFloat(price)\<close>. The two numeric readings are
  built-ins of the language, not code of the repository, and they differ on some texts
  (\<^verbatim>\<open>Number(" ")\<close> is 0 where \<^verbatim>\<open>parseFloat(" ")\<close> is NaN), so the field carries
  both readings next to its text.
\<close>

record numeric_text =
  raw :: string
  asNumber :: js_number
  asFloat :: js_number

text \<open>Truthiness of an optional text field: \<^verbatim>\<open>undefined\<close> and \<^verbatim>\<open>''\<close> are falsy.\<close>

fun truthy :: "string option \<Rightarrow> bool" where
  "truthy None = False"
| "truthy (Some s) = (s \<noteq> [])"

text \<open>
  What the handlers take from the language and from libraries. Of the language:
  \<^verbatim>\<open>String.prototype.trim\<close>, \<^verbatim>\<open>toLowerCase\<close> and the \<^verbatim>\<open>length\<close> of a text
  in code units, whose Unicode tables are not reproduced here. Of libraries: verifying
  and signing a token (\<^verbatim>\<open>jsonwebtoken\<close>, keyed by the server's secret), hashing and
  comparing a password (\<^verbatim>\<open>bcryptjs\<close>), and the email test of \<^verbatim>\<open>validator\<close>.
  \<open>verify\<close> gives the user identifier of the token's payload, or nothing where
  the library throws. Every definition that uses one of them takes the record as its
  first argument, and every statement holds whatever the record is, except where it
  names what it asks of \<open>trim\<close>.
\<close>

record library =
  trim :: "string \<Rightarrow> string"
  toLowerCase :: "string \<Rightarrow> string"
  codeUnits :: "string \<Rightarrow> nat"
  verify :: "string \<Rightarrow> oid option"
  sign :: "oid \<Rightarrow> bool \<Rightarrow> string"
  hash :: "string \<Rightarrow> string"
  compare :: "string \<Rightarrow> string \<Rightarrow> bool"
  isEmail :: "string \<Rightarrow> bool"

text \<open>\<^verbatim>\<open>!field?.trim()\<close>: the field is missing or blank.\<close>

fun blank :: "library \<Rightarrow> string option \<Rightarrow> bool" where
  "blank lib None = True"
| "blank lib (Some s) = (trim lib s = [])"

text \<open>\<^verbatim>\<open>field?.trim() || dflt\<close>\<close>

fun trim_or :: "library \<Rightarrow> string option \<Rightarrow> string \<Rightarrow> string" where
  "trim_or lib None dflt = dflt"
| "trim_or lib (Some s) dflt = (if trim lib s = [] then dflt else trim lib s)"

text \<open>An error reply: the HTTP status and the \<^verbatim>\<open>message\<close> of the JSON envelope.\<close>

datatype failure = Failure nat string

section \<open>Data model\<close>

record address =
  street :: string
  city :: string
  state :: string
  zipCode :: string
  country :: string

text \<open>
  The product schema. \<^verbatim>\<open>status\<close> and \<^verbatim>\<open>category\<close> are strings that the schema
  restricts to an enumeration when a document is validated. \<^verbatim>\<open>buyer\<close>,
  \<^verbatim>\<open>soldAt\<close> and \<^verbatim>\<open>shippingAddress\<close> have no default: they are absent until
  something sets them. \<^verbatim>\<open>createdAt\<close> comes from the schema's timestamps option;
  the \<^verbatim>\<open>updatedAt\<close> stamp that the same option maintains is not modelled.
\<close>

record product =
  pid :: oid
  name :: string
  price :: js_number
  images :: "string list"
  category :: string
  size_p :: string
  color :: string
  location :: string
  contactNumber :: string
  description :: string
  status :: string
  isActive :: bool
  seller :: oid
  buyer :: "oid option"
  soldAt :: "date option"
  shippingAddress :: "address option"
  createdAt :: date

record user =
  user_id :: oid
  user_name :: string
  email :: string
  password :: string
  isAdmin :: bool

text \<open>\<^verbatim>\<open>req.user\<close>, as the authentication middleware attaches it.\<close>

record req_user =
  ru_id :: oid
  ru_isAdmin :: bool

definition validCategories :: "string list" where
  "validCategories = [''shoes'', ''clothes'', ''accessories'', ''electronics'', ''other'']"

definition statusEnum :: "string list" where
  "statusEnum = [''pending'', ''approved'', ''rejected'', ''sold'']"

text \<open>
  Validation of a product document against the schema, run by \<^verbatim>\<open>save()\<close>:
  required strings are non-empty, the price casts to a number (NaN does not) and is at
  least 0, category and status are in their enumerations. The seller is an identifier
  that the middleware supplies, so it is always present.
\<close>

fun price_valid :: "js_number \<Rightarrow> bool" where
  "price_valid NaN = False"
| "price_valid (Finite r) = (0 \<le> r)"
| "price_valid PosInfinity = True"
| "price_valid NegInfinity = False"

definition schema_valid :: "product \<Rightarrow> bool" where
  "schema_valid p =
     (name p \<noteq> [] \<and> price_valid (price p) \<and> list_all (\<lambda>i. i \<noteq> []) (images p)
      \<and> category p \<in> set validCategories \<and> contactNumber p \<noteq> []
      \<and> status p \<in> set statusEnum)"

subsection \<open>The product collection\<close>

text \<open>
  The collection is the list of its documents. \<^verbatim>\<open>findById\<close> returns the document
  with the given \<^verbatim>\<open>_id\<close>; the store keeps \<^verbatim>\<open>_id\<close> unique by refusing an insert
  whose \<^verbatim>\<open>_id\<close> is taken.
\<close>

definition findById :: "product list \<Rightarrow> oid \<Rightarrow> product option" where
  "findById ps i = find (\<lambda>p. pid p = i) ps"

definition has_id :: "product list \<Rightarrow> oid \<Rightarrow> bool" where
  "has_id ps i = (findById ps i \<noteq> None)"

text \<open>
  \<^verbatim>\<open>save()\<close> of a document that was read from the collection replaces the stored
  document of the same \<^verbatim>\<open>_id\<close>.
\<close>

definition save :: "product list \<Rightarrow> product \<Rightarrow> product list" where
  "save ps p' = map (\<lambda>p. if pid p = pid p' then p' else p) ps"

definition unique_ids :: "product list \<Rightarrow> bool" where
  "unique_ids ps = distinct (map pid ps)"

section \<open>Checkout\<close>

record payment =
  cardNumber :: "string option"
  expiryDate :: "string option"
  cvv :: "string option"

record checkout_body =
  productId :: oid
  shipping :: "address option"
  paymentInfo :: "payment option"

definition not_available :: string where
  "not_available =
     ''This product is no longer available. It may have been purchased by another user.''"

fun payment_missing :: "payment option \<Rightarrow> bool" where
  "payment_missing None = True"
| "payment_missing (Some pay) =
     (\<not> truthy (cardNumber pay) \<or> \<not> truthy (expiryDate pay) \<or> \<not> truthy (cvv pay))"

text \<open>
  The handler has two accesses to the store. The first reads the product and checks
  the request (lines 537 to 566); it changes nothing.
\<close>

definition checkout_validate :: "product list \<Rightarrow> checkout_body \<Rightarrow> failure option" where
  "checkout_validate ps b =
     (case findById ps (productId b) of
        None \<Rightarrow> Some (Failure 404 ''Product not found'')
      | Some p \<Rightarrow>
          if status p = ''sold'' \<or> \<not> isActive p then Some (Failure 400 not_available)
          else if status p \<noteq> ''approved''
            then Some (Failure 400 ''This product is not available for purchase'')
          else if payment_missing (paymentInfo b)
            then Some (Failure 400 ''Invalid payment information'')
          else None)"

text \<open>
  The second is \<^verbatim>\<open>findOneAndUpdate\<close> with the filter
  \<^verbatim>\<open>{_id, status: 'approved', isActive: true}\<close> and the \<^verbatim>\<open>$set\<close> of the handler:
  the store finds the first document that matches and changes it in one step, and
  returns the changed document (\<^verbatim>\<open>new: true\<close>), or finds none and changes nothing.
  A request without \<^verbatim>\<open>shippingAddress\<close> puts \<^verbatim>\<open>undefined\<close> into \<^verbatim>\<open>$set\<close>,
  which the database library leaves out of the update: the stored address stays.
\<close>

definition sell :: "req_user \<Rightarrow> checkout_body \<Rightarrow> date \<Rightarrow> product \<Rightarrow> product" where
  "sell u b now p =
     p\<lparr>status := ''sold'', buyer := Some (ru_id u), soldAt := Some now,
       shippingAddress := (case shipping b of None \<Rightarrow> shippingAddress p | Some a \<Rightarrow> Some a),
       isActive := False\<rparr>"

definition purchasable :: "oid \<Rightarrow> product \<Rightarrow> bool" where
  "purchasable i p = (pid p = i \<and> status p = ''approved'' \<and> isActive p)"

fun findOneAndUpdate ::
  "(product \<Rightarrow> bool) \<Rightarrow> (product \<Rightarrow> product) \<Rightarrow> product list \<Rightarrow> product option \<times> product list"
where
  "findOneAndUpdate flt upd [] = (None, [])"
| "findOneAndUpdate flt upd (p # ps) =
     (if flt p then (Some (upd p), upd p # ps)
      else (case findOneAndUpdate flt upd ps of (r, ps') \<Rightarrow> (r, p # ps')))"

definition checkout_update ::
  "product list \<Rightarrow> req_user \<Rightarrow> checkout_body \<Rightarrow> date \<Rightarrow> (failure + product) \<times> product list"
where
  "checkout_update ps u b now =
     (case findOneAndUpdate (purchasable (productId b)) (sell u b now) ps of
        (None, ps') \<Rightarrow> (Inl (Failure 400 not_available), ps')
      | (Some p', ps') \<Rightarrow> (Inr p', ps'))"

text \<open>The handler of \<^verbatim>\<open>POST /checkout\<close>, run without interruption.\<close>

definition checkout ::
  "product list \<Rightarrow> req_user \<Rightarrow> checkout_body \<Rightarrow> date \<Rightarrow> (failure + product) \<times> product list"
where
  "checkout ps u b now =
     (case checkout_validate ps b of
        Some e \<Rightarrow> (Inl e, ps)
      | None \<Rightarrow> checkout_update ps u b now)"

section \<open>Product handlers\<close>

subsection \<open>Populating the seller\<close>

record user_ref =
  ref_id :: oid
  ref_name :: string
  ref_email :: string

text \<open>
  \<^verbatim>\<open>.populate('seller', 'name email')\<close>: the reply carries the document and, in
  place of the seller's identifier, the seller's name and email (\<^verbatim>\<open>null\<close> when no
  such user exists).
\<close>

record populated =
  doc :: product
  seller_doc :: "user_ref option"

definition populate_seller :: "user list \<Rightarrow> product \<Rightarrow> populated" where
  "populate_seller us p =
     \<lparr>doc = p,
      seller_doc = map_option (\<lambda>u. \<lparr>ref_id = user_id u, ref_name = user_name u, ref_email = email u\<rparr>)
                     (find (\<lambda>u. user_id u = seller p) us)\<rparr>"

subsection \<open>Create\<close>

record product_form =
  f_name :: "string option"
  f_price :: "numeric_text option"
  f_description :: "string option"
  f_category :: "string option"
  f_size :: "string option"
  f_color :: "string option"
  f_location :: "string option"
  f_contactNumber :: "string option"

text \<open>\<^verbatim>\<open>!price || isNaN(price) || parseFloat(price) <= 0\<close>\<close>

fun invalid_price :: "numeric_text option \<Rightarrow> bool" where
  "invalid_price None = True"
| "invalid_price (Some t) = (raw t = [] \<or> asNumber t = NaN \<or> le_zero (asFloat t))"

fun parseFloat :: "numeric_text option \<Rightarrow> js_number" where
  "parseFloat None = NaN"
| "parseFloat (Some t) = asFloat t"

text \<open>\<^verbatim>\<open>category && !validCategories.includes(category)\<close>\<close>

fun invalid_category :: "string option \<Rightarrow> bool" where
  "invalid_category None = False"
| "invalid_category (Some c) = (c \<noteq> [] \<and> c \<notin> set validCategories)"

text \<open>
  The checks of the fields, which the create handler (lines 64 to 92) and the update
  handler (lines 356 to 384) both make, in this order.
\<close>

definition validate_fields :: "library \<Rightarrow> product_form \<Rightarrow> failure option" where
  "validate_fields lib f =
     (if blank lib (f_name f) then Some (Failure 400 ''Product name is required'')
      else if invalid_price (f_price f) then Some (Failure 400 ''Please enter a valid price'')
      else if blank lib (f_contactNumber f) then Some (Failure 400 ''Contact number is required'')
      else if invalid_category (f_category f) then Some (Failure 400 ''Invalid category'')
      else None)"

text \<open>The text of a field that the checks have found present.\<close>

fun text_of :: "string option \<Rightarrow> string" where
  "text_of None = []"
| "text_of (Some s) = s"

text \<open>
  \<^verbatim>\<open>new Product({...})\<close> with the schema's defaults: status \<^verbatim>\<open>pending\<close>, active,
  no buyer, no sale date, no shipping address. \<open>files\<close> are the names under which
  the upload middleware stored the images.
\<close>

definition new_product ::
  "library \<Rightarrow> req_user \<Rightarrow> product_form \<Rightarrow> string list \<Rightarrow> oid \<Rightarrow> date \<Rightarrow> product" where
  "new_product lib u f files i now =
     \<lparr>pid = i,
      name = trim lib (text_of (f_name f)),
      price = parseFloat (f_price f),
      images = map (\<lambda>file. ''/uploads/'' @ file) files,
      category = trim_or lib (f_category f) ''other'',
      size_p = trim_or lib (f_size f) [],
      color = trim_or lib (f_color f) [],
      location = trim_or lib (f_location f) [],
      contactNumber = trim lib (text_of (f_contactNumber f)),
      description = trim_or lib (f_description f) [],
      status = ''pending'',
      isActive = True,
      seller = ru_id u,
      buyer = None,
      soldAt = None,
      shippingAddress = None,
      createdAt = now\<rparr>"

text \<open>
  The handler of \<^verbatim>\<open>POST /\<close>. \<^verbatim>\<open>product.save()\<close> throws when the document fails
  the schema or its \<^verbatim>\<open>_id\<close> is taken; the \<^verbatim>\<open>catch\<close> answers 400 in both cases,
  in the first with the messages of the validation errors, which are the database
  library's texts: \<open>validation_message\<close> stands for them. The uploaded files, which
  the \<^verbatim>\<open>catch\<close> deletes, are outside the model.
\<close>

definition validation_message :: string where
  "validation_message = ''ValidationError''"

definition create_product ::
  "library \<Rightarrow> user list \<Rightarrow> product list \<Rightarrow> req_user \<Rightarrow> product_form \<Rightarrow> string list
   \<Rightarrow> oid \<Rightarrow> date \<Rightarrow> (failure + populated) \<times> product list" where
  "create_product lib us ps u f files i now =
     (case validate_fields lib f of
        Some e \<Rightarrow> (Inl e, ps)
      | None \<Rightarrow>
          if files = [] then (Inl (Failure 400 ''At least one image is required''), ps)
          else
            let p = new_product lib u f files i now in
            if \<not> schema_valid p then (Inl (Failure 400 validation_message), ps)
            else if has_id ps i
              then (Inl (Failure 400 ''Failed to add product. Please try again.''), ps)
            else (Inr (populate_seller us p), ps @ [p]))"

subsection \<open>Listings and single product\<close>

text \<open>
  \<^verbatim>\<open>.sort({ createdAt: -1 })\<close>. The store does not say in which order documents of
  equal date come; the function below is one such order, and no statement about a
  listing depends on which it is.
\<close>

definition newest_first :: "product list \<Rightarrow> product list" where
  "newest_first ps = sort_key (\<lambda>p. - createdAt p) ps"

definition public_filter :: "product \<Rightarrow> bool" where
  "public_filter p = (status p = ''approved'' \<and> isActive p \<and> soldAt p = None)"

definition list_public :: "user list \<Rightarrow> product list \<Rightarrow> populated list" where
  "list_public us ps = map (populate_seller us) (newest_first (filter public_filter ps))"

definition auth_filter :: "product \<Rightarrow> bool" where
  "auth_filter p = (status p = ''approved'' \<and> isActive p)"

definition list_products :: "user list \<Rightarrow> product list \<Rightarrow> populated list" where
  "list_products us ps = map (populate_seller us) (newest_first (filter auth_filter ps))"

definition get_product :: "user list \<Rightarrow> product list \<Rightarrow> oid \<Rightarrow> failure + populated" where
  "get_product us ps i =
     (case findById ps i of
        None \<Rightarrow> Inl (Failure 404 ''Product not found'')
      | Some p \<Rightarrow> Inr (populate_seller us p))"

subsection \<open>Moderation, visibility, update\<close>

text \<open>
  The handlers below read a document, assign to it and save it. The stored documents
  satisfied the schema when they were stored, and the values that
  \<^verbatim>\<open>PUT /:id/status\<close> and \<^verbatim>\<open>PUT /:id/toggle-active\<close> assign always satisfy the
  schema; of the values that \<^verbatim>\<open>PUT /:id\<close> assigns, the price can fail to cast (NaN
  passes the handler's check when \<^verbatim>\<open>Number\<close> and \<^verbatim>\<open>parseFloat\<close> disagree), and
  then \<^verbatim>\<open>save()\<close> throws and the \<^verbatim>\<open>catch\<close> answers 500.
\<close>

text \<open>\<^verbatim>\<open>['approved', 'rejected'].includes(status)\<close>\<close>

fun status_allowed :: "string option \<Rightarrow> bool" where
  "status_allowed None = False"
| "status_allowed (Some s) = (s \<in> set [''approved'', ''rejected''])"

definition invalid_status_message :: string where
  "invalid_status_message =
     ''Invalid status. Must be either '' @ [CHR 0x22] @ ''approved'' @ [CHR 0x22] @ '' or ''
       @ [CHR 0x22] @ ''rejected'' @ [CHR 0x22]"

definition set_status ::
  "product list \<Rightarrow> oid \<Rightarrow> string option \<Rightarrow> (failure + product) \<times> product list" where
  "set_status ps i st =
     (if \<not> status_allowed st then (Inl (Failure 400 invalid_status_message), ps)
      else
        (case findById ps i of
           None \<Rightarrow> (Inl (Failure 404 ''Product not found''), ps)
         | Some p \<Rightarrow> (Inr (p\<lparr>status := text_of st\<rparr>), save ps (p\<lparr>status := text_of st\<rparr>))))"

text \<open>
  In toggle-active the ownership test is
  \<^verbatim>\<open>product.seller.toString() !== req.user.id\<close>: a string against the ObjectId that
  the authentication middleware put into \<^verbatim>\<open>req.user.id\<close>. Strict inequality of a
  string and an object holds whatever they are.
\<close>

definition text_differs_from_oid :: "string \<Rightarrow> oid \<Rightarrow> bool" where
  "text_differs_from_oid s i = True"

definition toggle_active ::
  "product list \<Rightarrow> req_user \<Rightarrow> oid \<Rightarrow> (failure + product) \<times> product list" where
  "toggle_active ps u i =
     (case findById ps i of
        None \<Rightarrow> (Inl (Failure 404 ''Product not found''), ps)
      | Some p \<Rightarrow>
          if text_differs_from_oid (seller p) (ru_id u) \<and> \<not> ru_isAdmin u
            then (Inl (Failure 403 ''Not authorized to modify this product''), ps)
          else (Inr (p\<lparr>isActive := \<not> isActive p\<rparr>), save ps (p\<lparr>isActive := \<not> isActive p\<rparr>)))"

definition assign_fields :: "library \<Rightarrow> product_form \<Rightarrow> product \<Rightarrow> product" where
  "assign_fields lib f p =
     p\<lparr>name := trim lib (text_of (f_name f)),
       price := parseFloat (f_price f),
       description := trim_or lib (f_description f) [],
       category := trim_or lib (f_category f) ''other'',
       size_p := trim_or lib (f_size f) [],
       color := trim_or lib (f_color f) [],
       location := trim_or lib (f_location f) [],
       contactNumber := trim lib (text_of (f_contactNumber f))\<rparr>"

definition update_product ::
  "library \<Rightarrow> product list \<Rightarrow> req_user \<Rightarrow> oid \<Rightarrow> product_form
   \<Rightarrow> (failure + product) \<times> product list" where
  "update_product lib ps u i f =
     (case findById ps i of
        None \<Rightarrow> (Inl (Failure 404 ''Product not found''), ps)
      | Some p \<Rightarrow>
          if seller p \<noteq> ru_id u \<and> \<not> ru_isAdmin u
            then (Inl (Failure 403 ''Not authorized to modify this product''), ps)
          else
            (case validate_fields lib f of
               Some e \<Rightarrow> (Inl e, ps)
             | None \<Rightarrow>
                 if \<not> price_valid (price (assign_fields lib f p))
                   then (Inl (Failure 500 ''Failed to update product''), ps)
                 else (Inr (assign_fields lib f p), save ps (assign_fields lib f p))))"

section \<open>Middleware and routes\<close>

text \<open>\<^verbatim>\<open>header.replace(pat, '')\<close> for a non-empty \<open>pat\<close>: the first occurrence goes.\<close>

fun remove_first :: "string \<Rightarrow> string \<Rightarrow> string" where
  "remove_first pat [] = []"
| "remove_first pat (c # cs) =
     (if take (length pat) (c # cs) = pat then drop (length pat) (c # cs)
      else c # remove_first pat cs)"

definition findUser :: "user list \<Rightarrow> oid \<Rightarrow> user option" where
  "findUser us i = find (\<lambda>u. user_id u = i) us"

definition auth :: "library \<Rightarrow> user list \<Rightarrow> string option \<Rightarrow> failure + req_user" where
  "auth lib us header =
     (case header of
        None \<Rightarrow> Inl (Failure 401 ''No token, authorization denied'')
      | Some h \<Rightarrow>
          if remove_first ''Bearer '' h = []
            then Inl (Failure 401 ''No token, authorization denied'')
          else
            (case verify lib (remove_first ''Bearer '' h) of
               None \<Rightarrow> Inl (Failure 401 ''Token is not valid'')
             | Some i \<Rightarrow>
                 (case findUser us i of
                    None \<Rightarrow> Inl (Failure 401 ''User not found'')
                  | Some usr \<Rightarrow> Inr \<lparr>ru_id = user_id usr, ru_isAdmin = isAdmin usr\<rparr>)))"

definition adminAuth :: "user list \<Rightarrow> req_user option \<Rightarrow> failure option" where
  "adminAuth us ru =
     (case ru of
        None \<Rightarrow> Some (Failure 401 ''Authentication required'')
      | Some r \<Rightarrow>
          (case findUser us (ru_id r) of
             None \<Rightarrow> Some (Failure 401 ''User not found'')
           | Some usr \<Rightarrow>
               if \<not> isAdmin usr
                 then Some (Failure 403 ''Access denied. Admin privileges required.'')
               else None))"

text \<open>
  A route is its chain of middleware and its handler, applied to the
  \<^verbatim>\<open>Authorization\<close> header and the rest of the request.
  \<^verbatim>\<open>router.get('/', auth, ...)\<close> has the authentication middleware in its chain;
  \<^verbatim>\<open>router.get('/public', ...)\<close> and \<^verbatim>\<open>router.get('/:id', ...)\<close> have none, and
  their handlers read nothing of the request but the path.
\<close>

definition route_list_products ::
  "library \<Rightarrow> user list \<Rightarrow> product list \<Rightarrow> string option \<Rightarrow> failure + populated list" where
  "route_list_products lib us ps header =
     (case auth lib us header of
        Inl e \<Rightarrow> Inl e
      | Inr u \<Rightarrow> Inr (list_products us ps))"

definition route_list_public ::
  "library \<Rightarrow> user list \<Rightarrow> product list \<Rightarrow> string option \<Rightarrow> failure + populated list" where
  "route_list_public lib us ps header = Inr (list_public us ps)"

definition route_get_product ::
  "library \<Rightarrow> user list \<Rightarrow> product list \<Rightarrow> string option \<Rightarrow> oid \<Rightarrow> failure + populated" where
  "route_get_product lib us ps header i = get_product us ps i"

section \<open>Sequences of requests\<close>

text \<open>
  The requests that change a product, each with the user that the authentication
  middleware attached, and what the store is after each. The status route runs
  \<^verbatim>\<open>adminAuth\<close> before its handler.
\<close>

datatype request =
    Create req_user product_form "string list" oid date
  | SetStatus req_user oid "string option"
  | ToggleActive req_user oid
  | Update req_user oid product_form
  | Checkout req_user checkout_body date

fun handle :: "library \<Rightarrow> user list \<Rightarrow> product list \<Rightarrow> request \<Rightarrow> product list" where
  "handle lib us ps (Create u f files i now) = snd (create_product lib us ps u f files i now)"
| "handle lib us ps (SetStatus u i st) =
     (case adminAuth us (Some u) of
        Some e \<Rightarrow> ps
      | None \<Rightarrow> snd (set_status ps i st))"
| "handle lib us ps (ToggleActive u i) = snd (toggle_active ps u i)"
| "handle lib us ps (Update u i f) = snd (update_product lib ps u i f)"
| "handle lib us ps (Checkout u b now) = snd (checkout ps u b now)"

definition run :: "library \<Rightarrow> user list \<Rightarrow> product list \<Rightarrow> request list \<Rightarrow> product list" where
  "run lib us ps rs = foldl (handle lib us) ps rs"

text \<open>
  The handlers above take whatever user the request names. In the program the user is
  the one that the authentication middleware resolves from the request's
  \<^verbatim>\<open>Authorization\<close> header; a request that fails the middleware changes nothing. A
  list of requests with their headers is admitted when the middleware resolves each
  header to the user of its request.
\<close>

fun requester :: "request \<Rightarrow> req_user" where
  "requester (Create u f files i now) = u"
| "requester (SetStatus u i st) = u"
| "requester (ToggleActive u i) = u"
| "requester (Update u i f) = u"
| "requester (Checkout u b now) = u"

definition admitted :: "library \<Rightarrow> user list \<Rightarrow> (string option \<times> request) list \<Rightarrow> bool" where
  "admitted lib us hrs = list_all (\<lambda>hr. auth lib us (fst hr) = Inr (requester (snd hr))) hrs"

section \<open>Two checkouts at once\<close>

text \<open>
  Each of the handler's two accesses to the store is one step: the store serves one
  operation on a document at a time, and \<^verbatim>\<open>findOneAndUpdate\<close> is one operation.
  Between the two steps of one request, steps of another may run.
\<close>

record attempt =
  customer :: req_user
  order_body :: checkout_body
  clock :: date

datatype progress = Arrived | Validated | Answered "failure + product"

fun advance :: "attempt \<Rightarrow> progress \<Rightarrow> product list \<Rightarrow> progress \<times> product list" where
  "advance a Arrived ps =
     (case checkout_validate ps (order_body a) of
        Some e \<Rightarrow> (Answered (Inl e), ps)
      | None \<Rightarrow> (Validated, ps))"
| "advance a Validated ps =
     (case checkout_update ps (customer a) (order_body a) (clock a) of
        (r, ps') \<Rightarrow> (Answered r, ps'))"
| "advance a (Answered r) ps = (Answered r, ps)"

datatype turn = First | Second

fun interleave ::
  "attempt \<Rightarrow> attempt \<Rightarrow> turn list \<Rightarrow> product list \<times> progress \<times> progress
   \<Rightarrow> product list \<times> progress \<times> progress" where
  "interleave a1 a2 [] st = st"
| "interleave a1 a2 (First # ts) (ps, g1, g2) =
     (case advance a1 g1 ps of (g1', ps') \<Rightarrow> interleave a1 a2 ts (ps', g1', g2))"
| "interleave a1 a2 (Second # ts) (ps, g1, g2) =
     (case advance a2 g2 ps of (g2', ps') \<Rightarrow> interleave a1 a2 ts (ps', g1, g2'))"

fun succeeded :: "progress \<Rightarrow> bool" where
  "succeeded (Answered (Inr p)) = True"
| "succeeded g = False"

fun refused :: "progress \<Rightarrow> bool" where
  "refused (Answered (Inl e)) = (e = Failure 400 not_available)"
| "refused g = False"

section \<open>Cart\<close>

text \<open>
  Modelled from the spec: the Cart schema (\<^verbatim>\<open>models/Cart\<close>) is not among the
  sources. The spec gives a cart as an owning user and a list of line items, each a
  product reference and a quantity, and a line item inserted without a quantity the
  quantity 1. Every access of the cart routes is by the owning user, so the collection
  is a map from the owner to the line items of the owner's cart.
\<close>

record cart_item =
  product_ref :: oid
  quantity :: int

text \<open>
  Modelled from the spec: the quantity that the missing Cart schema gives a line item
  pushed without one. The spec's add inserts with quantity 1.
\<close>

definition default_quantity :: int where
  "default_quantity = 1"

text \<open>\<^verbatim>\<open>.populate('items.product', 'name price images description category')\<close>\<close>

record product_brief =
  brief_id :: oid
  brief_name :: string
  brief_price :: js_number
  brief_images :: "string list"
  brief_description :: string
  brief_category :: string

record cart_line =
  line_product :: "product_brief option"
  line_quantity :: int

definition populate_items :: "product list \<Rightarrow> cart_item list \<Rightarrow> cart_line list" where
  "populate_items ps its =
     map (\<lambda>it.
        \<lparr>line_product =
           map_option (\<lambda>p. \<lparr>brief_id = pid p, brief_name = name p, brief_price = price p,
                            brief_images = images p, brief_description = description p,
                            brief_category = category p\<rparr>)
             (findById ps (product_ref it)),
         line_quantity = quantity it\<rparr>) its"

text \<open>
  \<^verbatim>\<open>cart.items.find(...)\<close> gives the first line item of the product, and the handler
  adds 1 to its quantity; with no such item it pushes \<^verbatim>\<open>{ product: productId }\<close>.
\<close>

fun increment_first :: "oid \<Rightarrow> cart_item list \<Rightarrow> cart_item list" where
  "increment_first i [] = []"
| "increment_first i (x # xs) =
     (if product_ref x = i then x\<lparr>quantity := quantity x + 1\<rparr> # xs
      else x # increment_first i xs)"

definition add_item :: "oid \<Rightarrow> cart_item list \<Rightarrow> cart_item list" where
  "add_item i its =
     (case find (\<lambda>it. product_ref it = i) its of
        Some existingItem \<Rightarrow> increment_first i its
      | None \<Rightarrow> its @ [\<lparr>product_ref = i, quantity = default_quantity\<rparr>])"

definition cart_items :: "(oid \<rightharpoonup> cart_item list) \<Rightarrow> oid \<Rightarrow> cart_item list" where
  "cart_items cs owner = (case cs owner of None \<Rightarrow> [] | Some its \<Rightarrow> its)"

definition add_to_cart ::
  "product list \<Rightarrow> (oid \<rightharpoonup> cart_item list) \<Rightarrow> req_user \<Rightarrow> string option
   \<Rightarrow> (failure + cart_line list) \<times> (oid \<rightharpoonup> cart_item list)" where
  "add_to_cart ps cs u productId' =
     (if \<not> truthy productId' then (Inl (Failure 400 ''Product ID is required''), cs)
      else
        (Inr (populate_items ps (add_item (text_of productId') (cart_items cs (ru_id u)))),
         cs(ru_id u \<mapsto> add_item (text_of productId') (cart_items cs (ru_id u)))))"

section \<open>Login and registration\<close>

record session =
  token :: string
  session_id :: oid
  session_name :: string
  session_email :: string
  session_isAdmin :: bool

definition open_session :: "library \<Rightarrow> user \<Rightarrow> session" where
  "open_session lib usr =
     \<lparr>token = sign lib (user_id usr) (isAdmin usr), session_id = user_id usr,
      session_name = user_name usr, session_email = email usr, session_isAdmin = isAdmin usr\<rparr>"

text \<open>
  The email path of the user schema has the setters \<^verbatim>\<open>trim\<close> and \<^verbatim>\<open>lowercase\<close>.
  The database library applies them to the email of a document that is saved and to the
  email of a query filter alike, so \<^verbatim>\<open>User.findOne({ email })\<close> finds the user whose
  stored email is the trimmed, lower-case form of the email asked for.
\<close>

definition email_setters :: "library \<Rightarrow> string \<Rightarrow> string" where
  "email_setters lib e = trim lib (toLowerCase lib e)"

definition findByEmail :: "library \<Rightarrow> user list \<Rightarrow> string \<Rightarrow> user option" where
  "findByEmail lib us e = find (\<lambda>usr. email usr = email_setters lib e) us"

definition login :: "library \<Rightarrow> user list \<Rightarrow> string \<Rightarrow> string \<Rightarrow> failure + session" where
  "login lib us e pw =
     (case findByEmail lib us e of
        None \<Rightarrow> Inl (Failure 400 ''Invalid credentials'')
      | Some usr \<Rightarrow>
          if \<not> compare lib pw (password usr) then Inl (Failure 400 ''Invalid credentials'')
          else Inr (open_session lib usr))"

text \<open>
  The user schema: name, email and password are required, the name is trimmed, the
  email goes through its setters, must pass \<^verbatim>\<open>validator.isEmail\<close> and is unique in
  the collection, the password has at least 6 code units. The \<^verbatim>\<open>pre("save")\<close> hook
  replaces the password by its hash. When \<^verbatim>\<open>save()\<close> throws, for a document that
  fails the schema or an \<^verbatim>\<open>_id\<close> that is taken, the \<^verbatim>\<open>catch\<close> answers 500. The
  unique index on the email refuses nothing that \<^verbatim>\<open>findOne\<close> has let through: both
  compare the stored emails with the same text.
\<close>

definition new_user :: "library \<Rightarrow> string \<Rightarrow> string \<Rightarrow> string \<Rightarrow> oid \<Rightarrow> user" where
  "new_user lib nm e pw i =
     \<lparr>user_id = i, user_name = trim lib nm, email = email_setters lib e, password = pw,
      isAdmin = False\<rparr>"

definition user_valid :: "library \<Rightarrow> user \<Rightarrow> bool" where
  "user_valid lib usr =
     (user_name usr \<noteq> [] \<and> email usr \<noteq> [] \<and> isEmail lib (email usr)
      \<and> 6 \<le> codeUnits lib (password usr))"

definition register ::
  "library \<Rightarrow> user list \<Rightarrow> string \<Rightarrow> string \<Rightarrow> string \<Rightarrow> oid
   \<Rightarrow> (failure + session) \<times> user list" where
  "register lib us nm e pw i =
     (case findByEmail lib us e of
        Some usr \<Rightarrow> (Inl (Failure 400 ''User already exists''), us)
      | None \<Rightarrow>
          if \<not> user_valid lib (new_user lib nm e pw i) \<or> findUser us i \<noteq> None
            then (Inl (Failure 500 ''Server error''), us)
          else
            (Inr (open_session lib (new_user lib nm e pw i)),
             us @ [(new_user lib nm e pw i)\<lparr>password := hash lib pw\<rparr>]))"

section \<open>Two checkouts at once: what every interleaving keeps\<close>

text \<open>
  How far a request has come, and the states that two checkouts of the same purchasable
  product \<open>p\<close> of the store \<open>ps\<close> can be in: nobody has bought yet and both
  are still running, or one of them has bought and the other is still running or has
  been refused.
\<close>


fun stage :: "progress \<Rightarrow> nat" where
  "stage Arrived = 0"
| "stage Validated = 1"
| "stage (Answered r) = 2"

definition sold_to :: "attempt \<Rightarrow> product \<Rightarrow> product" where
  "sold_to a p = sell (customer a) (order_body a) (clock a) p"

fun waiting :: "progress \<Rightarrow> bool" where
  "waiting (Answered r) = False"
| "waiting g = True"

fun one_sale :: "product list \<Rightarrow> product \<Rightarrow> attempt \<Rightarrow> attempt
   \<Rightarrow> product list \<times> progress \<times> progress \<Rightarrow> bool" where
  "one_sale ps p a1 a2 (cur, g1, g2) =
     (cur = ps \<and> waiting g1 \<and> waiting g2
      \<or> cur = save ps (sold_to a1 p) \<and> g1 = Answered (Inr (sold_to a1 p))
          \<and> (waiting g2 \<or> refused g2)
      \<or> cur = save ps (sold_to a2 p) \<and> g2 = Answered (Inr (sold_to a2 p))
          \<and> (waiting g1 \<or> refused g1))"

section \<open>Moves of the status\<close>

text \<open>
  The moves of a product's status that one request can make: an admin status update
  leaves it or sets it to approved or rejected, a checkout leaves it or takes it from
  approved to sold, every other request leaves it.
\<close>


fun permitted :: "request \<Rightarrow> string \<Rightarrow> string \<Rightarrow> bool" where
  "permitted (SetStatus u i st) s s' = (s' = s \<or> s' = ''approved'' \<or> s' = ''rejected'')"
| "permitted (Checkout u b now) s s' = (s' = s \<or> s = ''approved'' \<and> s' = ''sold'')"
| "permitted r s s' = (s' = s)"

section \<open>What the create handler accepts\<close>




section \<open>Sample data\<close>

definition boots :: product where
  "boots =
     \<lparr>pid = ''p1'', name = ''Boots'', price = Finite 40, images = [''/uploads/images-1.png''],
      category = ''shoes'', size_p = ''42'', color = ''brown'', location = ''Lahore'',
      contactNumber = ''0300'', description = [], status = ''approved'', isActive = True,
      seller = ''u1'', buyer = None, soldAt = None, shippingAddress = None, createdAt = 100\<rparr>"

definition alice :: req_user where
  "alice = \<lparr>ru_id = ''u2'', ru_isAdmin = False\<rparr>"

definition bob :: req_user where
  "bob = \<lparr>ru_id = ''u3'', ru_isAdmin = False\<rparr>"

definition card :: payment where
  "card = \<lparr>cardNumber = Some ''4111'', expiryDate = Some ''12/30'', cvv = Some ''123''\<rparr>"

definition home :: address where
  "home = \<lparr>street = ''1 Mall Road'', city = ''Lahore'', state = ''Punjab'', zipCode = ''54000'',
     country = ''PK''\<rparr>"

definition order_boots :: checkout_body where
  "order_boots = \<lparr>productId = ''p1'', shipping = Some home, paymentInfo = Some card\<rparr>"

definition alice_attempt :: attempt where
  "alice_attempt = \<lparr>customer = alice, order_body = order_boots, clock = 500\<rparr>"

definition bob_attempt :: attempt where
  "bob_attempt = \<lparr>customer = bob, order_body = order_boots, clock = 501\<rparr>"

definition carol :: req_user where
  "carol = \<lparr>ru_id = ''u9'', ru_isAdmin = True\<rparr>"

definition dave :: req_user where
  "dave = \<lparr>ru_id = ''u1'', ru_isAdmin = False\<rparr>"

definition members :: "user list" where
  "members =
     [\<lparr>user_id = ''u1'', user_name = ''Dave'', email = ''dave@example.com'', password = ''h1'',
        isAdmin = False\<rparr>,
      \<lparr>user_id = ''u9'', user_name = ''Carol'', email = ''carol@example.com'', password = ''h9'',
        isAdmin = True\<rparr>,
      \<lparr>user_id = ''u2'', user_name = ''Alice'', email = ''alice@example.com'', password = ''h2'',
        isAdmin = False\<rparr>,
      \<lparr>user_id = ''u3'', user_name = ''Bob'', email = ''bob@example.com'', password = ''h3'',
        isAdmin = False\<rparr>]"

definition boots_form :: product_form where
  "boots_form =
     \<lparr>f_name = Some ''Boots'', f_price = Some \<lparr>raw = ''40'', asNumber = Finite 40, asFloat = Finite 40\<rparr>,
      f_description = None, f_category = Some ''shoes'', f_size = Some ''42'',
      f_color = Some ''brown'', f_location = Some ''Lahore'', f_contactNumber = Some ''0300''\<rparr>"

definition resale :: "request list" where
  "resale =
     [Create dave boots_form [''images-1.png''] ''p1'' 100,
      SetStatus carol ''p1'' (Some ''approved''),
      Checkout alice order_boots 500,
      SetStatus carol ''p1'' (Some ''approved''),
      ToggleActive carol ''p1'',
      Checkout bob order_boots 900]"

text \<open>The headers with which the requests of \<open>resale\<close> arrive, one for each.\<close>

definition resale_headers :: "string option list" where
  "resale_headers =
     [Some ''Bearer token-u1'', Some ''Bearer token-u9'', Some ''Bearer token-u2'',
      Some ''Bearer token-u9'', Some ''Bearer token-u9'', Some ''Bearer token-u3'']"

definition sold_boots :: product where
  "sold_boots = boots\<lparr>status := ''sold'', buyer := Some ''u2'', soldAt := Some 500,
     shippingAddress := Some home, isActive := False\<rparr>"

definition shelf :: "product list" where
  "shelf =
     [boots,
      sold_boots\<lparr>pid := ''p2''\<rparr>,
      boots\<lparr>pid := ''p3'', status := ''pending'', createdAt := 150\<rparr>,
      boots\<lparr>pid := ''p4'', createdAt := 200\<rparr>,
      boots\<lparr>pid := ''p5'', isActive := False, createdAt := 300\<rparr>]"

text \<open>
  A sample of the record of built-ins and libraries. Its \<open>trim\<close> and
  \<open>toLowerCase\<close> are those of the language on ASCII text, which is all that the
  samples hold; a token is the user's identifier behind a fixed prefix.
\<close>

definition is_space :: "char \<Rightarrow> bool" where
  "is_space c = (c = CHR '' '' \<or> c = CHR 0x09 \<or> c = CHR 0x0A \<or> c = CHR 0x0B
     \<or> c = CHR 0x0C \<or> c = CHR 0x0D)"

definition ascii_trim :: "string \<Rightarrow> string" where
  "ascii_trim s = rev (dropWhile is_space (rev (dropWhile is_space s)))"

definition lower_char :: "char \<Rightarrow> char" where
  "lower_char c =
     (if 65 \<le> (of_char c :: nat) \<and> (of_char c :: nat) \<le> 90 then char_of (of_char c + (32 :: nat))
      else c)"

definition keys :: library where
  "keys =
     \<lparr>trim = ascii_trim,
      toLowerCase = map lower_char,
      codeUnits = length,
      verify = (\<lambda>t. if take 6 t = ''token-'' then Some (drop 6 t) else None),
      sign = (\<lambda>i a. ''token-'' @ i),
      hash = (\<lambda>pw. ''#'' @ pw),
      compare = (\<lambda>pw h. h = ''#'' @ pw),
      isEmail = (\<lambda>e. CHR ''@'' \<in> set e)\<rparr>"

definition basket :: "oid \<rightharpoonup> cart_item list" where
  "basket = [''u2'' \<mapsto> [\<lparr>product_ref = ''p4'', quantity = 3\<rparr>]]"

definition sandals_form :: product_form where
  "sandals_form =
     \<lparr>f_name = Some '' Sandals '', f_price = Some \<lparr>raw = ''25.5'', asNumber = Finite (51 / 2), asFloat = Finite (51 / 2)\<rparr>,
      f_description = Some ''Worn once'', f_category = None, f_size = None,
      f_color = None, f_location = None, f_contactNumber = Some ''0301''\<rparr>"

definition relisted_boots :: product where
  "relisted_boots = sold_boots\<lparr>status := ''approved'', isActive := True\<rparr>"

definition sandals :: product where
  "sandals = sold_boots\<lparr>name := ''Sandals'', price := Finite (51 / 2),
     description := ''Worn once'', category := ''other'', size_p := [], color := [],
     location := [], contactNumber := ''0301''\<rparr>"

section \<open>Facts about the store\<close>

lemma findById_Some: "findById ps i = Some p \<Longrightarrow> p \<in> set ps \<and> pid p = i"
  by (auto simp: findById_def find_Some_iff)

lemma findOneAndUpdate_no_match:
  "\<not> list_ex flt ps \<Longrightarrow> findOneAndUpdate flt upd ps = (None, ps)"
  by (induction ps) auto

lemma save_absent: "pid p' \<notin> pid ` set ps \<Longrightarrow> save ps p' = ps"
  by (induction ps) (auto simp: save_def)

lemma findOneAndUpdate_unique:
  "unique_ids ps \<Longrightarrow> findById ps i = Some p \<Longrightarrow> pid (upd p) = i \<Longrightarrow>
   findOneAndUpdate (purchasable i) upd ps =
     (if status p = ''approved'' \<and> isActive p then (Some (upd p), save ps (upd p))
      else (None, ps))"
proof (induction ps)
  case Nil
  then show ?case by (simp add: findById_def)
next
  case (Cons a ps)
  show ?case
  proof (cases "pid a = i")
    case True
    with Cons.prems have pa: "p = a" by (simp add: findById_def)
    from Cons.prems True have absent: "i \<notin> pid ` set ps" by (auto simp: unique_ids_def)
    then have "\<not> list_ex (purchasable i) ps"
      by (auto simp: list_ex_iff purchasable_def)
    then have none: "findOneAndUpdate (purchasable i) upd ps = (None, ps)"
      by (rule findOneAndUpdate_no_match)
    from absent Cons.prems(3) pa have "save ps (upd a) = ps" by (simp add: save_absent)
    then have "save (a # ps) (upd a) = upd a # ps"
      using True Cons.prems(3) pa by (simp add: save_def)
    moreover have "purchasable i a \<longleftrightarrow> status a = ''approved'' \<and> isActive a"
      using True by (simp add: purchasable_def)
    ultimately show ?thesis using pa none by simp
  next
    case False
    with Cons.prems have "findById ps i = Some p" "unique_ids ps"
      by (auto simp: findById_def unique_ids_def)
    with Cons.IH Cons.prems(3) have "findOneAndUpdate (purchasable i) upd ps =
     (if status p = ''approved'' \<and> isActive p then (Some (upd p), save ps (upd p))
      else (None, ps))" by simp
    moreover have "\<not> purchasable i a" using False by (simp add: purchasable_def)
    moreover have "save (a # ps) (upd p) = a # save ps (upd p)"
      using False Cons.prems(3) by (simp add: save_def)
    ultimately show ?thesis by simp
  qed
qed

lemma pid_sell: "pid (sell u b now p) = pid p"
  by (simp add: sell_def)

lemma checkout_update_unique:
  assumes "unique_ids ps" and "findById ps (productId b) = Some p"
  shows "checkout_update ps u b now =
     (if status p = ''approved'' \<and> isActive p
      then (Inr (sell u b now p), save ps (sell u b now p))
      else (Inl (Failure 400 not_available), ps))"
proof -
  from assms(2) have "pid p = productId b" by (simp add: findById_Some)
  then have "pid (sell u b now p) = productId b" by (simp add: pid_sell)
  with assms show ?thesis
    by (simp add: checkout_update_def findOneAndUpdate_unique)
qed

lemma checkout_validate_found:
  assumes "findById ps (productId b) = Some p"
  shows "checkout_validate ps b =
     (if status p = ''sold'' \<or> \<not> isActive p then Some (Failure 400 not_available)
      else if status p \<noteq> ''approved''
        then Some (Failure 400 ''This product is not available for purchase'')
      else if payment_missing (paymentInfo b)
        then Some (Failure 400 ''Invalid payment information'')
      else None)"
  using assms by (simp add: checkout_validate_def)

section \<open>Checkout: the conditional update\<close>

text \<open>
  C1, as the spec states it, fails: a checkout of an existing product that is approved
  and active is refused when the request carries no payment information, and the
  refusal is not the not-available error.
\<close>

theorem checkout_without_payment_fails:
  "findById [boots] ''p1'' = Some boots \<and> status boots = ''approved'' \<and> isActive boots
   \<and> checkout [boots] alice \<lparr>productId = ''p1'', shipping = Some home, paymentInfo = None\<rparr> 500
       = (Inl (Failure 400 ''Invalid payment information''), [boots])"
  by (simp add: checkout_def checkout_validate_def findById_def boots_def)

text \<open>
  C1, amended: for every checkout request that carries a card number, an expiry date
  and a security code, on a product that exists when the handler reads it (store
  \<open>ps0\<close>) and at the moment of the single conditional update (store \<open>ps\<close>, with
  unique identifiers): the request reaches the conditional update if and only if its
  read found the product approved and active, and is refused with one of the two
  not-available messages otherwise; the conditional update succeeds if and only if the
  product is approved and active at the moment of that update, and so does the whole
  checkout when nothing comes between its read and its update. On success the one update
  sets the status to sold, the buyer to the requesting user, the sale date to the clock
  and the active flag to false, stores the supplied shipping address (the stored address
  stays when the request supplies none) and changes nothing else. On failure the reply
  is 400 with a not-available message and the store is unchanged.
\<close>

theorem checkout_succeeds_iff_approved_and_active:
  assumes "\<not> payment_missing (paymentInfo b)"
    and "findById ps0 (productId b) = Some p0"
    and "unique_ids ps"
    and "findById ps (productId b) = Some p"
  shows "(checkout_validate ps0 b = None \<longleftrightarrow> status p0 = ''approved'' \<and> isActive p0)
       \<and> checkout_validate ps0 b
           \<in> {None, Some (Failure 400 not_available),
              Some (Failure 400 ''This product is not available for purchase'')}
       \<and> checkout_update ps u b now =
           (if status p = ''approved'' \<and> isActive p
            then (Inr (p\<lparr>status := ''sold'', buyer := Some (ru_id u), soldAt := Some now,
                        shippingAddress :=
                          (case shipping b of None \<Rightarrow> shippingAddress p | Some a \<Rightarrow> Some a),
                        isActive := False\<rparr>),
                  save ps (p\<lparr>status := ''sold'', buyer := Some (ru_id u), soldAt := Some now,
                        shippingAddress :=
                          (case shipping b of None \<Rightarrow> shippingAddress p | Some a \<Rightarrow> Some a),
                        isActive := False\<rparr>))
            else (Inl (Failure 400 not_available), ps))
       \<and> checkout ps u b now =
           (if status p = ''approved'' \<and> isActive p
            then (Inr (p\<lparr>status := ''sold'', buyer := Some (ru_id u), soldAt := Some now,
                        shippingAddress :=
                          (case shipping b of None \<Rightarrow> shippingAddress p | Some a \<Rightarrow> Some a),
                        isActive := False\<rparr>),
                  save ps (p\<lparr>status := ''sold'', buyer := Some (ru_id u), soldAt := Some now,
                        shippingAddress :=
                          (case shipping b of None \<Rightarrow> shippingAddress p | Some a \<Rightarrow> Some a),
                        isActive := False\<rparr>))
            else (Inl (Failure 400
                        (if status p = ''sold'' \<or> \<not> isActive p then not_available
                         else ''This product is not available for purchase'')), ps))"
proof -
  have read: "checkout_validate ps0 b =
     (if status p0 = ''sold'' \<or> \<not> isActive p0 then Some (Failure 400 not_available)
      else if status p0 \<noteq> ''approved''
        then Some (Failure 400 ''This product is not available for purchase'')
      else None)"
    using assms(1,2) by (simp add: checkout_validate_found)
  have a: "checkout_validate ps0 b = None \<longleftrightarrow> status p0 = ''approved'' \<and> isActive p0"
    unfolding read by auto
  have b: "checkout_validate ps0 b
           \<in> {None, Some (Failure 400 not_available),
              Some (Failure 400 ''This product is not available for purchase'')}"
    unfolding read by simp
  have c: "checkout_update ps u b now =
     (if status p = ''approved'' \<and> isActive p
      then (Inr (sell u b now p), save ps (sell u b now p))
      else (Inl (Failure 400 not_available), ps))"
    using assms(3,4) by (rule checkout_update_unique)
  have v: "checkout_validate ps b =
     (if status p = ''sold'' \<or> \<not> isActive p then Some (Failure 400 not_available)
      else if status p \<noteq> ''approved''
        then Some (Failure 400 ''This product is not available for purchase'')
      else None)"
    using assms(1,4) by (simp add: checkout_validate_found)
  have d: "checkout ps u b now =
     (if status p = ''approved'' \<and> isActive p
      then (Inr (sell u b now p), save ps (sell u b now p))
      else (Inl (Failure 400
                  (if status p = ''sold'' \<or> \<not> isActive p then not_available
                   else ''This product is not available for purchase'')), ps))"
    by (auto simp: checkout_def v c)
  from a b c d show ?thesis by (simp add: sell_def)
qed

theorem checkout_succeeds_iff_approved_and_active_witness:
  "checkout_validate [boots] order_boots = None
   \<and> checkout_update [sold_boots] bob order_boots 900
       = (Inl (Failure 400 not_available), [sold_boots])
   \<and> checkout [relisted_boots] bob
         \<lparr>productId = ''p1'', shipping = None, paymentInfo = Some card\<rparr> 900
       = (Inr (relisted_boots\<lparr>status := ''sold'', buyer := Some ''u3'', soldAt := Some 900,
                 isActive := False\<rparr>),
          [relisted_boots\<lparr>status := ''sold'', buyer := Some ''u3'', soldAt := Some 900,
                 isActive := False\<rparr>])
   \<and> shippingAddress relisted_boots = Some home"
proof -
  let ?b = "\<lparr>productId = ''p1'', shipping = None, paymentInfo = Some card\<rparr>"
  have pay: "\<not> payment_missing (paymentInfo order_boots)" "\<not> payment_missing (paymentInfo ?b)"
    by (simp_all add: order_boots_def card_def)
  have f0: "findById [boots] (productId order_boots) = Some boots"
    by (simp add: findById_def order_boots_def boots_def)
  have u1: "unique_ids [sold_boots]" by (simp add: unique_ids_def)
  have f1: "findById [sold_boots] (productId order_boots) = Some sold_boots"
    by (simp add: findById_def order_boots_def sold_boots_def boots_def)
  have u2: "unique_ids [relisted_boots]" by (simp add: unique_ids_def)
  have f2: "findById [relisted_boots] (productId ?b) = Some relisted_boots"
    by (simp add: findById_def relisted_boots_def sold_boots_def boots_def)
  have s0: "status boots = ''approved'' \<and> isActive boots" by (simp add: boots_def)
  have s1: "status sold_boots = ''sold''" by (simp add: sold_boots_def)
  have s2: "status relisted_boots = ''approved'' \<and> isActive relisted_boots"
    by (simp add: relisted_boots_def)
  have raced: "checkout_validate [boots] order_boots = None
     \<and> checkout_update [sold_boots] bob order_boots 900
         = (Inl (Failure 400 not_available), [sold_boots])"
    using checkout_succeeds_iff_approved_and_active [OF pay(1) f0 u1 f1, of bob 900] s0 s1
    by simp
  have bought: "checkout [relisted_boots] bob ?b 900
       = (Inr (relisted_boots\<lparr>status := ''sold'', buyer := Some ''u3'', soldAt := Some 900,
                 isActive := False\<rparr>),
          [relisted_boots\<lparr>status := ''sold'', buyer := Some ''u3'', soldAt := Some 900,
                 isActive := False\<rparr>])"
    using checkout_succeeds_iff_approved_and_active [OF pay(2) f2 u2 f2, of bob 900] s2
    by (simp add: save_def bob_def)
  have kept: "shippingAddress relisted_boots = Some home"
    by (simp add: relisted_boots_def sold_boots_def)
  from raced bought kept show ?thesis by blast
qed

section \<open>Two checkouts at once: one buyer\<close>

lemma unique_ids_save: "unique_ids ps \<Longrightarrow> unique_ids (save ps p')"
proof -
  have "map pid (save ps p') = map pid ps"
    by (induction ps) (auto simp: save_def)
  then show "unique_ids ps \<Longrightarrow> unique_ids (save ps p')" by (simp add: unique_ids_def)
qed

lemma findById_save:
  "findById ps i = Some p \<Longrightarrow> pid p' = i \<Longrightarrow> findById (save ps p') i = Some p'"
  by (induction ps) (auto simp: findById_def save_def split: if_splits)

lemma advance_stage: "min 2 (stage g + 1) \<le> stage (fst (advance a g ps))"
  by (cases g) (auto split: option.splits prod.splits)

lemma advance_waiting_store:
  assumes "unique_ids ps" "findById ps (productId (order_body a)) = Some p"
    "status p = ''approved''" "isActive p" "\<not> payment_missing (paymentInfo (order_body a))"
    "waiting g"
  shows "advance a g ps = (Validated, ps) \<and> g = Arrived
       \<or> advance a g ps = (Answered (Inr (sold_to a p)), save ps (sold_to a p)) \<and> g = Validated"
proof (cases g)
  case Arrived
  then show ?thesis using assms by (simp add: checkout_validate_found)
next
  case Validated
  then show ?thesis using assms by (simp add: checkout_update_unique sold_to_def)
next
  case (Answered r)
  with assms show ?thesis by simp
qed

lemma advance_after_sale:
  assumes "unique_ids ps" "findById ps (productId (order_body a)) = Some p"
    "pid q = pid p" "status q = ''sold''"
    "waiting g \<or> refused g"
  shows "\<exists>g'. advance a g (save ps q) = (g', save ps q) \<and> (waiting g' \<or> refused g')"
proof -
  from assms(2) have "pid p = productId (order_body a)" by (simp add: findById_Some)
  with assms have f: "findById (save ps q) (productId (order_body a)) = Some q"
    by (simp add: findById_save)
  have u: "unique_ids (save ps q)" using assms(1) by (rule unique_ids_save)
  show ?thesis
  proof (cases g)
    case Arrived
    then show ?thesis using f assms(4) by (simp add: checkout_validate_found)
  next
    case Validated
    then show ?thesis using f u assms(4) by (simp add: checkout_update_unique)
  next
    case (Answered r)
    with assms(5) show ?thesis by simp
  qed
qed


lemma interleave_Cons:
  "interleave a1 a2 (t # ts) st = interleave a1 a2 ts (interleave a1 a2 [t] st)"
  by (cases st; cases t) (auto split: prod.splits)

lemma one_sale_step:
  assumes "unique_ids ps" and "findById ps i = Some p"
    and "status p = ''approved''" and "isActive p"
    and "productId (order_body a1) = i" and "productId (order_body a2) = i"
    and "\<not> payment_missing (paymentInfo (order_body a1))"
    and "\<not> payment_missing (paymentInfo (order_body a2))"
    and inv: "one_sale ps p a1 a2 st"
  shows "one_sale ps p a1 a2 (interleave a1 a2 [t] st)"
proof -
  obtain cur g1 g2 where st: "st = (cur, g1, g2)" by (cases st) auto
  have sold1: "pid (sold_to a1 p) = pid p" "status (sold_to a1 p) = ''sold''"
    by (simp_all add: sold_to_def sell_def)
  have sold2: "pid (sold_to a2 p) = pid p" "status (sold_to a2 p) = ''sold''"
    by (simp_all add: sold_to_def sell_def)
  have f1: "findById ps (productId (order_body a1)) = Some p" using assms by simp
  have f2: "findById ps (productId (order_body a2)) = Some p" using assms by simp
  from inv st consider
      (fresh) "cur = ps" "waiting g1" "waiting g2"
    | (first) "cur = save ps (sold_to a1 p)" "g1 = Answered (Inr (sold_to a1 p))"
        "waiting g2 \<or> refused g2"
    | (second) "cur = save ps (sold_to a2 p)" "g2 = Answered (Inr (sold_to a2 p))"
        "waiting g1 \<or> refused g1"
    by auto
  then show ?thesis
  proof cases
    case fresh
    show ?thesis
    proof (cases t)
      case First
      from advance_waiting_store [OF assms(1) f1 assms(3,4,7) fresh(2)]
      show ?thesis using st fresh First by auto
    next
      case Second
      from advance_waiting_store [OF assms(1) f2 assms(3,4,8) fresh(3)]
      show ?thesis using st fresh Second by auto
    qed
  next
    case first
    show ?thesis
    proof (cases t)
      case First
      then show ?thesis using st first by simp
    next
      case Second
      from advance_after_sale [OF assms(1) f2 sold1 first(3)]
      show ?thesis using st first Second by auto
    qed
  next
    case second
    show ?thesis
    proof (cases t)
      case First
      from advance_after_sale [OF assms(1) f1 sold2 second(3)]
      show ?thesis using st second First by auto
    next
      case Second
      then show ?thesis using st second by simp
    qed
  qed
qed

lemma one_sale_run:
  assumes "unique_ids ps" and "findById ps i = Some p"
    and "status p = ''approved''" and "isActive p"
    and "productId (order_body a1) = i" and "productId (order_body a2) = i"
    and "\<not> payment_missing (paymentInfo (order_body a1))"
    and "\<not> payment_missing (paymentInfo (order_body a2))"
  shows "one_sale ps p a1 a2 st \<Longrightarrow> one_sale ps p a1 a2 (interleave a1 a2 ts st)"
proof (induction ts arbitrary: st)
  case Nil
  then show ?case by simp
next
  case (Cons t ts)
  from Cons.prems have "one_sale ps p a1 a2 (interleave a1 a2 [t] st)"
    by (rule one_sale_step [OF assms])
  then have "one_sale ps p a1 a2 (interleave a1 a2 ts (interleave a1 a2 [t] st))"
    by (rule Cons.IH)
  then show ?case by (simp only: interleave_Cons [of a1 a2 t ts st])
qed

lemma interleave_progress:
  "interleave a1 a2 ts (ps, g1, g2) = (ps', g1', g2') \<Longrightarrow>
   min 2 (stage g1 + count_list ts First) \<le> stage g1'
   \<and> min 2 (stage g2 + count_list ts Second) \<le> stage g2'"
proof (induction ts arbitrary: ps g1 g2)
  case Nil
  then show ?case by simp
next
  case (Cons t ts)
  show ?case
  proof (cases t)
    case First
    obtain h1 qs where adv: "advance a1 g1 ps = (h1, qs)" by (cases "advance a1 g1 ps") auto
    with Cons.prems First have "interleave a1 a2 ts (qs, h1, g2) = (ps', g1', g2')" by simp
    from Cons.IH [OF this] have
      "min 2 (stage h1 + count_list ts First) \<le> stage g1'"
      "min 2 (stage g2 + count_list ts Second) \<le> stage g2'" by simp_all
    moreover have "min 2 (stage g1 + 1) \<le> stage h1"
      using advance_stage [of g1 a1 ps] adv by simp
    ultimately show ?thesis using First by simp
  next
    case Second
    obtain h2 qs where adv: "advance a2 g2 ps = (h2, qs)" by (cases "advance a2 g2 ps") auto
    with Cons.prems Second have "interleave a1 a2 ts (qs, g1, h2) = (ps', g1', g2')" by simp
    from Cons.IH [OF this] have
      "min 2 (stage g1 + count_list ts First) \<le> stage g1'"
      "min 2 (stage h2 + count_list ts Second) \<le> stage g2'" by simp_all
    moreover have "min 2 (stage g2 + 1) \<le> stage h2"
      using advance_stage [of g2 a2 ps] adv by simp
    ultimately show ?thesis using Second by simp
  qed
qed

lemma stage_2_not_waiting: "2 \<le> stage g \<Longrightarrow> \<not> waiting g"
  by (cases g) auto

text \<open>Two steps of one request in a row are the handler run without interruption.\<close>

lemma checkout_in_two_steps:
  "interleave a1 a2 [First, First] (ps, Arrived, g2)
     = (snd (checkout ps (customer a1) (order_body a1) (clock a1)),
        Answered (fst (checkout ps (customer a1) (order_body a1) (clock a1))), g2)"
  by (simp add: checkout_def split: option.splits prod.splits)

text \<open>
  C3, as the spec states it, fails: two concurrent checkouts of an approved, active
  product that carry no payment information are both refused, and neither with the
  not-available error.
\<close>

theorem two_checkouts_without_payment_both_fail:
  "findById [boots] ''p1'' = Some boots \<and> status boots = ''approved'' \<and> isActive boots
   \<and> interleave
        \<lparr>customer = alice, order_body = \<lparr>productId = ''p1'', shipping = Some home, paymentInfo = None\<rparr>,
          clock = 500\<rparr>
        \<lparr>customer = bob, order_body = \<lparr>productId = ''p1'', shipping = Some home, paymentInfo = None\<rparr>,
          clock = 501\<rparr>
        [First, Second, First, Second] ([boots], Arrived, Arrived)
     = ([boots], Answered (Inl (Failure 400 ''Invalid payment information'')),
        Answered (Inl (Failure 400 ''Invalid payment information'')))"
  by (simp add: checkout_validate_def findById_def boots_def)

text \<open>
  C3, amended: for two concurrent checkouts that both carry complete payment
  information, of the same approved and active product of a store with unique
  identifiers, whatever the order in which the store serves the reads and the
  conditional updates of the two, once both have run their two steps exactly one has
  succeeded and the other has received the not-available error; both never succeed.
\<close>

theorem concurrent_checkouts_one_winner:
  assumes "unique_ids ps" and "findById ps i = Some p"
    and "status p = ''approved''" and "isActive p"
    and "productId (order_body a1) = i" and "productId (order_body a2) = i"
    and "\<not> payment_missing (paymentInfo (order_body a1))"
    and "\<not> payment_missing (paymentInfo (order_body a2))"
    and "2 \<le> count_list ts First" and "2 \<le> count_list ts Second"
  shows "\<exists>ps' g1 g2. interleave a1 a2 ts (ps, Arrived, Arrived) = (ps', g1, g2)
           \<and> (succeeded g1 \<and> refused g2 \<or> refused g1 \<and> succeeded g2)
           \<and> \<not> (succeeded g1 \<and> succeeded g2)"
proof -
  obtain ps' g1 g2 where run: "interleave a1 a2 ts (ps, Arrived, Arrived) = (ps', g1, g2)"
    by (cases "interleave a1 a2 ts (ps, Arrived, Arrived)") auto
  from interleave_progress [OF run] assms(9,10) have "2 \<le> stage g1" "2 \<le> stage g2"
    by simp_all
  then have answered: "\<not> waiting g1" "\<not> waiting g2" by (simp_all add: stage_2_not_waiting)
  have "one_sale ps p a1 a2 (ps, Arrived, Arrived)" by simp
  then have "one_sale ps p a1 a2 (interleave a1 a2 ts (ps, Arrived, Arrived))"
    by (rule one_sale_run [OF assms(1-8)])
  with run answered have "succeeded g1 \<and> refused g2 \<or> refused g1 \<and> succeeded g2" by auto
  moreover have "\<not> (succeeded g1 \<and> succeeded g2)"
    using calculation by (cases g1 rule: succeeded.cases; cases g2 rule: succeeded.cases) auto
  ultimately show ?thesis using run by blast
qed

theorem concurrent_checkouts_one_winner_witness:
  "(\<exists>ps' g1 g2. interleave alice_attempt bob_attempt [First, Second, Second, First]
        ([boots], Arrived, Arrived) = (ps', g1, g2)
     \<and> (succeeded g1 \<and> refused g2 \<or> refused g1 \<and> succeeded g2)
     \<and> \<not> (succeeded g1 \<and> succeeded g2))
   \<and> interleave alice_attempt bob_attempt [First, Second, Second, First]
        ([boots], Arrived, Arrived)
     = ([sold_boots\<lparr>buyer := Some ''u3'', soldAt := Some 501\<rparr>],
        Answered (Inl (Failure 400 not_available)),
        Answered (Inr (sold_boots\<lparr>buyer := Some ''u3'', soldAt := Some 501\<rparr>)))"
proof -
  have u: "unique_ids [boots]" by (simp add: unique_ids_def)
  have f: "findById [boots] ''p1'' = Some boots" by (simp add: findById_def boots_def)
  have st: "status boots = ''approved''" "isActive boots" by (simp_all add: boots_def)
  have o: "productId (order_body alice_attempt) = ''p1''"
      "productId (order_body bob_attempt) = ''p1''"
    by (simp_all add: alice_attempt_def bob_attempt_def order_boots_def)
  have pay: "\<not> payment_missing (paymentInfo (order_body alice_attempt))"
      "\<not> payment_missing (paymentInfo (order_body bob_attempt))"
    by (simp_all add: alice_attempt_def bob_attempt_def order_boots_def card_def)
  have c: "2 \<le> count_list [First, Second, Second, First] First"
      "2 \<le> count_list [First, Second, Second, First] Second" by simp_all
  have one: "\<exists>ps' g1 g2. interleave alice_attempt bob_attempt [First, Second, Second, First]
        ([boots], Arrived, Arrived) = (ps', g1, g2)
     \<and> (succeeded g1 \<and> refused g2 \<or> refused g1 \<and> succeeded g2)
     \<and> \<not> (succeeded g1 \<and> succeeded g2)"
    by (rule concurrent_checkouts_one_winner [OF u f st o pay c])
  have run: "interleave alice_attempt bob_attempt [First, Second, Second, First]
        ([boots], Arrived, Arrived)
     = ([sold_boots\<lparr>buyer := Some ''u3'', soldAt := Some 501\<rparr>],
        Answered (Inl (Failure 400 not_available)),
        Answered (Inr (sold_boots\<lparr>buyer := Some ''u3'', soldAt := Some 501\<rparr>)))"
    by (simp add: checkout_validate_def checkout_update_def purchasable_def sell_def
        findById_def alice_attempt_def bob_attempt_def order_boots_def card_def bob_def
        boots_def sold_boots_def)
  show ?thesis by (rule conjI [OF one run])
qed

section \<open>The status of a product over a sequence of requests\<close>

lemma findById_save_other:
  "j \<noteq> pid p' \<Longrightarrow> findById (save ps p') j = findById ps j"
  by (induction ps) (auto simp: findById_def save_def)

lemma findById_save_same:
  "findById ps (pid p') = Some p \<Longrightarrow> findById (save ps p') (pid p') = Some p'"
  by (induction ps) (auto simp: findById_def save_def split: if_splits)

lemma findById_save_eq:
  "findById ps (pid p') = Some p \<Longrightarrow>
   findById (save ps p') j = (if j = pid p' then Some p' else findById ps j)"
  by (simp add: findById_save_other findById_save_same)

lemma findById_append:
  "findById ps j = Some q \<Longrightarrow> findById (ps @ [p']) j = Some q"
  by (induction ps) (auto simp: findById_def split: if_splits)

lemma findById_findOneAndUpdate:
  assumes "\<And>x. pid (upd x) = pid x" and "findById ps i = Some q"
  shows "findById (snd (findOneAndUpdate flt upd ps)) i = Some q
       \<or> flt q \<and> findById (snd (findOneAndUpdate flt upd ps)) i = Some (upd q)"
  using assms(2)
proof (induction ps)
  case Nil
  then show ?case by (simp add: findById_def)
next
  case (Cons a ps)
  show ?case
  proof (cases "flt a")
    case True
    then have "snd (findOneAndUpdate flt upd (a # ps)) = upd a # ps" by simp
    moreover have "findById (upd a # ps) i = (if pid a = i then Some (upd a) else findById ps i)"
      using assms(1) by (simp add: findById_def)
    moreover have "findById (a # ps) i = (if pid a = i then Some a else findById ps i)"
      by (simp add: findById_def)
    ultimately show ?thesis using Cons.prems True by (auto split: if_splits)
  next
    case False
    then have s: "snd (findOneAndUpdate flt upd (a # ps)) = a # snd (findOneAndUpdate flt upd ps)"
      by (simp split: prod.splits)
    show ?thesis
    proof (cases "pid a = i")
      case True
      with Cons.prems s show ?thesis by (simp add: findById_def)
    next
      case ne: False
      with Cons.prems have "findById ps i = Some q" by (simp add: findById_def)
      from Cons.IH [OF this] ne s show ?thesis by (simp add: findById_def)
    qed
  qed
qed

lemma checkout_status:
  assumes "findById ps i = Some p"
  shows "\<exists>q. findById (snd (checkout ps u b now)) i = Some q
           \<and> (status q = status p \<or> status p = ''approved'' \<and> status q = ''sold'')"
proof (cases "checkout_validate ps b")
  case (Some e)
  with assms show ?thesis by (simp add: checkout_def)
next
  case None
  have "findById (snd (findOneAndUpdate (purchasable (productId b)) (sell u b now) ps)) i = Some p
       \<or> purchasable (productId b) p
           \<and> findById (snd (findOneAndUpdate (purchasable (productId b)) (sell u b now) ps)) i
               = Some (sell u b now p)"
    by (rule findById_findOneAndUpdate [OF pid_sell assms])
  moreover have "snd (checkout ps u b now)
     = snd (findOneAndUpdate (purchasable (productId b)) (sell u b now) ps)"
    using None by (simp add: checkout_def checkout_update_def split: prod.splits option.splits)
  ultimately show ?thesis
    by (auto simp: purchasable_def sell_def)
qed

lemma create_keeps:
  "findById ps i = Some p \<Longrightarrow> findById (snd (create_product lib us ps u f files j now)) i = Some p"
  by (auto simp: create_product_def Let_def findById_append split: option.splits)

lemma set_status_status:
  assumes "findById ps i = Some p"
  shows "\<exists>q. findById (snd (set_status ps j st)) i = Some q
           \<and> (status q = status p \<or> status q = ''approved'' \<or> status q = ''rejected'')"
proof (cases "status_allowed st \<and> findById ps j \<noteq> None")
  case False
  with assms show ?thesis by (auto simp: set_status_def)
next
  case True
  then obtain t where t: "findById ps j = Some t" by auto
  then have "pid t = j" by (simp add: findById_Some)
  with t have "findById (save ps (t\<lparr>status := text_of st\<rparr>)) i
     = (if i = j then Some (t\<lparr>status := text_of st\<rparr>) else findById ps i)"
    using findById_save_eq [of ps "t\<lparr>status := text_of st\<rparr>" t i] by simp
  moreover from True have "text_of st = ''approved'' \<or> text_of st = ''rejected''"
    by (cases st) auto
  ultimately show ?thesis using True t assms by (auto simp: set_status_def)
qed

lemma toggle_active_status:
  assumes "findById ps i = Some p"
  shows "\<exists>q. findById (snd (toggle_active ps u j)) i = Some q \<and> status q = status p"
proof (cases "findById ps j")
  case None
  with assms show ?thesis by (simp add: toggle_active_def)
next
  case (Some t)
  then have "pid t = j" by (simp add: findById_Some)
  with Some have "findById (save ps (t\<lparr>isActive := \<not> isActive t\<rparr>)) i
     = (if i = j then Some (t\<lparr>isActive := \<not> isActive t\<rparr>) else findById ps i)"
    using findById_save_eq [of ps "t\<lparr>isActive := \<not> isActive t\<rparr>" t i] by simp
  with Some assms show ?thesis by (auto simp: toggle_active_def)
qed

lemma update_product_status:
  assumes "findById ps i = Some p"
  shows "\<exists>q. findById (snd (update_product lib ps u j f)) i = Some q \<and> status q = status p"
proof (cases "findById ps j")
  case None
  with assms show ?thesis by (simp add: update_product_def)
next
  case (Some t)
  then have "pid t = j" by (simp add: findById_Some)
  then have "pid (assign_fields lib f t) = j" by (simp add: assign_fields_def)
  with Some have "findById (save ps (assign_fields lib f t)) i
     = (if i = j then Some (assign_fields lib f t) else findById ps i)"
    using findById_save_eq [of ps "assign_fields lib f t" t i] by simp
  moreover have "status (assign_fields lib f t) = status t" by (simp add: assign_fields_def)
  ultimately show ?thesis using Some assms
    by (auto simp: update_product_def split: option.splits)
qed

lemma handle_permitted:
  assumes "findById ps i = Some p"
  shows "\<exists>q. findById (handle lib us ps r) i = Some q \<and> permitted r (status p) (status q)"
proof (cases r)
  case (Create u f files j now)
  with assms show ?thesis by (simp add: create_keeps)
next
  case (SetStatus u j st)
  with assms set_status_status [OF assms, of j st] show ?thesis
    by (auto split: option.splits)
next
  case (ToggleActive u j)
  with toggle_active_status [OF assms, of u j] show ?thesis by auto
next
  case (Update u j f)
  with update_product_status [OF assms, of lib u j f] show ?thesis by auto
next
  case (Checkout u b now)
  with checkout_status [OF assms, of u b now] show ?thesis by auto
qed

lemma permitted_not_pending: "permitted r s s' \<Longrightarrow> s \<noteq> ''pending'' \<Longrightarrow> s' \<noteq> ''pending''"
  by (cases r) auto

lemma run_not_pending:
  "findById ps i = Some p \<Longrightarrow> status p \<noteq> ''pending'' \<Longrightarrow>
   \<exists>q. findById (run lib us ps rs) i = Some q \<and> status q \<noteq> ''pending''"
proof (induction rs arbitrary: ps p)
  case Nil
  then show ?case by (simp add: run_def)
next
  case (Cons r rs)
  from handle_permitted [OF Cons.prems(1), of lib us r] obtain q where
    q: "findById (handle lib us ps r) i = Some q" "permitted r (status p) (status q)" by blast
  with Cons.prems(2) have "status q \<noteq> ''pending''" by (blast dest: permitted_not_pending)
  from Cons.IH [OF q(1) this] show ?case by (simp add: run_def)
qed


text \<open>A product is created, approved, bought, approved again, shown again and bought again.\<close>

lemma create_boots: "handle keys members [] (Create dave boots_form [''images-1.png''] ''p1'' 100)
    = [boots\<lparr>status := ''pending''\<rparr>]"
  by (simp add: create_product_def validate_fields_def new_product_def schema_valid_def
      validCategories_def statusEnum_def has_id_def findById_def Let_def keys_def ascii_trim_def is_space_def
      boots_form_def dave_def boots_def)

lemma approve_boots: "handle keys members [boots\<lparr>status := ''pending''\<rparr>]
    (SetStatus carol ''p1'' (Some ''approved'')) = [boots]"
  by (simp add: adminAuth_def findUser_def set_status_def findById_def save_def members_def
      carol_def boots_def)

lemma sell_boots: "handle keys members [boots] (Checkout alice order_boots 500) = [sold_boots]"
  by (simp add: checkout_def checkout_validate_def checkout_update_def purchasable_def sell_def
      findById_def order_boots_def card_def alice_def boots_def sold_boots_def)

lemma approve_sold_boots: "handle keys members [sold_boots] (SetStatus carol ''p1'' (Some ''approved''))
    = [sold_boots\<lparr>status := ''approved''\<rparr>]"
  by (simp add: adminAuth_def findUser_def set_status_def findById_def save_def members_def
      carol_def boots_def sold_boots_def)

lemma reactivate_sold_boots: "handle keys members [sold_boots\<lparr>status := ''approved''\<rparr>]
    (ToggleActive carol ''p1'') = [sold_boots\<lparr>status := ''approved'', isActive := True\<rparr>]"
  by (simp add: toggle_active_def text_differs_from_oid_def findById_def save_def carol_def
      boots_def sold_boots_def)

lemma sell_boots_again:
  "handle keys members [sold_boots\<lparr>status := ''approved'', isActive := True\<rparr>]
    (Checkout bob order_boots 900)
    = [sold_boots\<lparr>buyer := Some ''u3'', soldAt := Some 900\<rparr>]"
  by (simp add: checkout_def checkout_validate_def checkout_update_def purchasable_def sell_def
      findById_def order_boots_def card_def bob_def boots_def sold_boots_def)

text \<open>The requests of \<open>resale\<close> arrive with headers that the middleware resolves to their users.\<close>

lemma resale_admitted: "admitted keys members (zip resale_headers resale)"
  by (simp add: admitted_def resale_headers_def resale_def auth_def findUser_def keys_def
      members_def dave_def carol_def alice_def bob_def)


text \<open>
  C2, as the spec states it, fails: the admin status update takes a sold product back to
  approved, and after it is made active again a second checkout sells it to another
  buyer.
\<close>

theorem sold_product_is_sold_again:
  "admitted keys members (zip resale_headers resale)
   \<and> run keys members [] (take 3 resale) = [sold_boots]
   \<and> status sold_boots = ''sold'' \<and> buyer sold_boots = Some ''u2''
   \<and> map status (run keys members [] (take 4 resale)) = [''approved'']
   \<and> map status (run keys members [] resale) = [''sold'']
   \<and> map buyer (run keys members [] resale) = [Some ''u3'']"
proof -
  have "run keys members [] (take 3 resale) = [sold_boots]
   \<and> status sold_boots = ''sold'' \<and> buyer sold_boots = Some ''u2''
   \<and> map status (run keys members [] (take 4 resale)) = [''approved'']
   \<and> map status (run keys members [] resale) = [''sold'']
   \<and> map buyer (run keys members [] resale) = [Some ''u3'']"
    by (simp add: run_def resale_def create_boots approve_boots sell_boots approve_sold_boots
        reactivate_sold_boots sell_boots_again del: handle.simps)
      (simp add: sold_boots_def)
  with resale_admitted show ?thesis by (rule conjI)
qed

text \<open>
  C2, amended: over every sequence of requests (create, admin status update,
  toggle-active, update, checkout) a product that has left pending never returns to
  pending. One request leaves the status of a product, or is an admin status update
  that sets it to approved or rejected (whatever it was, sold included), or is a
  checkout that takes it from approved to sold.
\<close>

theorem status_never_returns_to_pending:
  assumes "findById ps i = Some p"
  shows "(\<exists>q. findById (handle lib us ps r) i = Some q \<and> permitted r (status p) (status q))
       \<and> (status p \<noteq> ''pending'' \<longrightarrow>
            (\<exists>q. findById (run lib us ps rs) i = Some q \<and> status q \<noteq> ''pending''))"
  using assms handle_permitted [OF assms] run_not_pending [OF assms] by blast

theorem status_never_returns_to_pending_witness:
  "(\<exists>q. findById (handle keys members [sold_boots] (SetStatus carol ''p1'' (Some ''rejected''))) ''p1''
          = Some q
        \<and> permitted (SetStatus carol ''p1'' (Some ''rejected'')) ''sold'' (status q))
   \<and> (\<exists>q. findById (run keys members [sold_boots] (drop 3 resale)) ''p1'' = Some q
        \<and> status q \<noteq> ''pending'')"
proof -
  have f: "findById [sold_boots] ''p1'' = Some sold_boots"
    by (simp add: findById_def sold_boots_def boots_def)
  have s: "status sold_boots = ''sold''" by (simp add: sold_boots_def)
  show ?thesis
    using status_never_returns_to_pending [OF f, of keys members
      "SetStatus carol ''p1'' (Some ''rejected'')" "drop 3 resale"] s
    by simp
qed

section \<open>Listings\<close>

lemma doc_populate_seller: "map (doc \<circ> populate_seller us) xs = xs"
  by (induction xs) (simp_all add: populate_seller_def)

lemma newest_first_descending:
  "sorted_wrt (\<lambda>a b. createdAt b \<le> createdAt a) (newest_first xs)"
proof -
  have "sorted (map (\<lambda>p. - createdAt p) (newest_first xs))"
    by (simp add: newest_first_def)
  then show ?thesis by (simp add: sorted_map)
qed

lemma docs_list_public: "map doc (list_public us ps) = newest_first (filter public_filter ps)"
  by (simp add: list_public_def doc_populate_seller)


text \<open>
  C4: in every state of the store, \<^verbatim>\<open>GET /products/public\<close> answers with exactly the
  products that are approved, active and unsold (no sale date), each as often as the store
  holds it, newest first by creation date; no product of the answer has the status sold
  or is inactive. The route asks for no credentials.
\<close>

theorem public_listing_approved_active_unsold:
  "(\<exists>rs. route_list_public lib us ps header = Inr rs
        \<and> mset (map doc rs)
            = mset (filter (\<lambda>p. status p = ''approved'' \<and> isActive p \<and> soldAt p = None) ps)
        \<and> sorted_wrt (\<lambda>a b. createdAt b \<le> createdAt a) (map doc rs)
        \<and> (\<forall>r \<in> set rs. status (doc r) \<noteq> ''sold'' \<and> isActive (doc r)))"
proof -
  have m: "mset (map doc (list_public us ps))
      = mset (filter (\<lambda>p. status p = ''approved'' \<and> isActive p \<and> soldAt p = None) ps)"
    by (simp add: docs_list_public newest_first_def public_filter_def)
  have s: "sorted_wrt (\<lambda>a b. createdAt b \<le> createdAt a) (map doc (list_public us ps))"
    by (simp add: docs_list_public newest_first_descending)
  have "set (map doc (list_public us ps)) \<subseteq> {p. public_filter p}"
    by (auto simp: docs_list_public newest_first_def)
  then have n: "\<forall>r \<in> set (list_public us ps). status (doc r) \<noteq> ''sold'' \<and> isActive (doc r)"
    by (auto simp: public_filter_def)
  from m s n show ?thesis by (simp add: route_list_public_def)
qed


theorem public_listing_approved_active_unsold_witness:
  "map (pid \<circ> doc) (list_public members shelf) = [''p4'', ''p1'']
   \<and> (\<exists>rs. route_list_public keys members shelf None = Inr rs
        \<and> mset (map doc rs) = {#boots, boots\<lparr>pid := ''p4'', createdAt := 200\<rparr>#}
        \<and> sorted_wrt (\<lambda>a b. createdAt b \<le> createdAt a) (map doc rs)
        \<and> list_all (\<lambda>r. status (doc r) \<noteq> ''sold'' \<and> isActive (doc r)) rs)"
proof -
  have l: "newest_first (filter public_filter shelf) = [boots\<lparr>pid := ''p4'', createdAt := 200\<rparr>, boots]"
    by (simp add: newest_first_def public_filter_def shelf_def boots_def sold_boots_def)
  have f: "filter (\<lambda>p. status p = ''approved'' \<and> isActive p \<and> soldAt p = None) shelf
      = [boots, boots\<lparr>pid := ''p4'', createdAt := 200\<rparr>]"
    by (simp add: shelf_def boots_def sold_boots_def)
  have "map (pid \<circ> doc) (list_public members shelf) = [''p4'', ''p1'']"
    by (simp add: list_public_def l populate_seller_def boots_def)
  then show ?thesis
    using public_listing_approved_active_unsold [of keys members shelf None]
    by (simp add: f list_all_iff)
qed










section \<open>Cart: adding a product\<close>

lemma increment_first_split:
  "i \<in> product_ref ` set its \<Longrightarrow>
   \<exists>xs x ys. its = xs @ x # ys \<and> product_ref x = i \<and> i \<notin> product_ref ` set xs
     \<and> increment_first i its = xs @ x\<lparr>quantity := quantity x + 1\<rparr> # ys"
proof (induction its)
  case Nil
  then show ?case by simp
next
  case (Cons a its)
  show ?case
  proof (cases "product_ref a = i")
    case True
    then have "a # its = [] @ a # its \<and> product_ref a = i \<and> i \<notin> product_ref ` set []
      \<and> increment_first i (a # its) = [] @ a\<lparr>quantity := quantity a + 1\<rparr> # its"
      by simp
    then show ?thesis by blast
  next
    case False
    with Cons.prems have "i \<in> product_ref ` set its" by auto
    from Cons.IH [OF this] obtain xs x ys where
      h: "its = xs @ x # ys" "product_ref x = i" "i \<notin> product_ref ` set xs"
         "increment_first i its = xs @ x\<lparr>quantity := quantity x + 1\<rparr> # ys" by blast
    with False have "a # its = (a # xs) @ x # ys \<and> product_ref x = i
      \<and> i \<notin> product_ref ` set (a # xs)
      \<and> increment_first i (a # its) = (a # xs) @ x\<lparr>quantity := quantity x + 1\<rparr> # ys"
      by auto
    then show ?thesis by blast
  qed
qed

lemma add_item_present:
  "i \<in> product_ref ` set its \<Longrightarrow> add_item i its = increment_first i its"
proof -
  assume "i \<in> product_ref ` set its"
  then have "find (\<lambda>it. product_ref it = i) its \<noteq> None"
    by (auto simp: find_None_iff)
  then show ?thesis by (auto simp: add_item_def)
qed

lemma add_item_absent:
  "i \<notin> product_ref ` set its \<Longrightarrow>
   add_item i its = its @ [\<lparr>product_ref = i, quantity = 1\<rparr>]"
proof -
  assume "i \<notin> product_ref ` set its"
  then have "find (\<lambda>it. product_ref it = i) its = None"
    by (auto simp: find_None_iff)
  then show ?thesis by (simp add: add_item_def default_quantity_def)
qed

lemma add_item_twice:
  assumes "i \<notin> product_ref ` set its"
  shows "add_item i (add_item i its) = its @ [\<lparr>product_ref = i, quantity = 2\<rparr>]"
proof -
  let ?one = "\<lparr>product_ref = i, quantity = 1\<rparr>"
  have first: "add_item i its = its @ [?one]" using assms by (rule add_item_absent)
  have "increment_first i (ys @ [?one]) = ys @ [\<lparr>product_ref = i, quantity = 2\<rparr>]"
    if "i \<notin> product_ref ` set ys" for ys
    using that by (induction ys) auto
  with assms have "increment_first i (its @ [?one]) = its @ [\<lparr>product_ref = i, quantity = 2\<rparr>]"
    by blast
  moreover have "i \<in> product_ref ` set (its @ [?one])" by simp
  ultimately show ?thesis using first by (simp add: add_item_present)
qed

lemma add_to_cart_items:
  "i \<noteq> [] \<Longrightarrow>
   add_to_cart ps cs u (Some i)
     = (Inr (populate_items ps (add_item i (cart_items cs (ru_id u)))),
        cs(ru_id u \<mapsto> add_item i (cart_items cs (ru_id u))))"
  by (simp add: add_to_cart_def)

text \<open>
  C6: for every cart and every product, adding the product answers with the cart's line
  items and changes no other cart. When the product is in the cart, the first line item
  of the product has its quantity raised by 1 and the rest of the cart is as it was;
  otherwise a line item of quantity 1 is put at the end, and adding the product once
  more gives that one line item the quantity 2: one line item of the product, not two.
\<close>

theorem cart_add_increments_or_inserts:
  assumes "i \<noteq> []"
    and "add_to_cart ps cs u (Some i) = (reply, cs')"
    and "add_to_cart ps cs' u (Some i) = (reply', cs'')"
  shows "reply = Inr (populate_items ps (cart_items cs' (ru_id u)))
       \<and> (\<forall>owner. owner \<noteq> ru_id u \<longrightarrow> cs' owner = cs owner)
       \<and> (if i \<in> product_ref ` set (cart_items cs (ru_id u))
          then \<exists>xs x ys. cart_items cs (ru_id u) = xs @ x # ys \<and> product_ref x = i
                 \<and> i \<notin> product_ref ` set xs
                 \<and> cart_items cs' (ru_id u) = xs @ x\<lparr>quantity := quantity x + 1\<rparr> # ys
          else cart_items cs' (ru_id u)
                 = cart_items cs (ru_id u) @ [\<lparr>product_ref = i, quantity = 1\<rparr>]
               \<and> cart_items cs'' (ru_id u)
                 = cart_items cs (ru_id u) @ [\<lparr>product_ref = i, quantity = 2\<rparr>]
               \<and> filter (\<lambda>it. product_ref it = i) (cart_items cs'' (ru_id u))
                 = [\<lparr>product_ref = i, quantity = 2\<rparr>])"
proof -
  let ?its = "cart_items cs (ru_id u)"
  from assms(1,2) have r: "reply = Inr (populate_items ps (add_item i ?its))"
    and c: "cs' = cs(ru_id u \<mapsto> add_item i ?its)"
    by (simp_all add: add_to_cart_items)
  from c have its': "cart_items cs' (ru_id u) = add_item i ?its"
    by (simp add: cart_items_def)
  from assms(1,3) have "cs'' = cs'(ru_id u \<mapsto> add_item i (cart_items cs' (ru_id u)))"
    by (simp add: add_to_cart_items)
  with its' have its'': "cart_items cs'' (ru_id u) = add_item i (add_item i ?its)"
    by (simp add: cart_items_def)
  have others: "\<forall>owner. owner \<noteq> ru_id u \<longrightarrow> cs' owner = cs owner" using c by simp
  show ?thesis
  proof (cases "i \<in> product_ref ` set ?its")
    case True
    from increment_first_split [OF True] add_item_present [OF True] its'
    have "\<exists>xs x ys. ?its = xs @ x # ys \<and> product_ref x = i \<and> i \<notin> product_ref ` set xs
                 \<and> cart_items cs' (ru_id u) = xs @ x\<lparr>quantity := quantity x + 1\<rparr> # ys"
      by simp
    with True r its' others show ?thesis by simp
  next
    case False
    then have none: "filter (\<lambda>it. product_ref it = i) ?its = []"
      by (auto simp: filter_empty_conv)
    from False have "cart_items cs' (ru_id u) = ?its @ [\<lparr>product_ref = i, quantity = 1\<rparr>]"
      using its' by (simp add: add_item_absent)
    moreover from False have two:
      "cart_items cs'' (ru_id u) = ?its @ [\<lparr>product_ref = i, quantity = 2\<rparr>]"
      using its'' by (simp add: add_item_twice)
    moreover have "filter (\<lambda>it. product_ref it = i) (cart_items cs'' (ru_id u))
        = [\<lparr>product_ref = i, quantity = 2\<rparr>]"
      using two none by simp
    ultimately show ?thesis using False r its' others by simp
  qed
qed

theorem cart_add_increments_or_inserts_witness:
  "cart_items (snd (add_to_cart shelf basket alice (Some ''p1''))) ''u2''
     = [\<lparr>product_ref = ''p4'', quantity = 3\<rparr>, \<lparr>product_ref = ''p1'', quantity = 1\<rparr>]
   \<and> cart_items (snd (add_to_cart shelf (snd (add_to_cart shelf basket alice (Some ''p1'')))
         alice (Some ''p1''))) ''u2''
     = [\<lparr>product_ref = ''p4'', quantity = 3\<rparr>, \<lparr>product_ref = ''p1'', quantity = 2\<rparr>]"
proof -
  let ?once = "add_to_cart shelf basket alice (Some ''p1'')"
  let ?twice = "add_to_cart shelf (snd ?once) alice (Some ''p1'')"
  have n: "''p1'' \<noteq> []" by simp
  have a: "?once = (fst ?once, snd ?once)" by simp
  have b: "?twice = (fst ?twice, snd ?twice)" by simp
  have its: "cart_items basket ''u2'' = [\<lparr>product_ref = ''p4'', quantity = 3\<rparr>]"
    by (simp add: cart_items_def basket_def)
  have u: "ru_id alice = ''u2''" by (simp add: alice_def)
  show ?thesis
    using cart_add_increments_or_inserts [OF n a b]
    by (simp add: its u)
qed

section \<open>Create: validation\<close>









section \<open>Login and registration: what a failure reveals\<close>

lemma keys_email_setters:
  "email_setters keys '' Dave@Example.com'' = ''dave@example.com''"
  "email_setters keys ''nobody@example.com'' = ''nobody@example.com''"
  by code_simp+

text \<open>
  C8: a login with a wrong password for an existing user gets the same reply as a login
  with an unknown email, status 400 and the message \<^verbatim>\<open>Invalid credentials\<close>; a
  registration with an email that belongs to a user is refused with status 400 and the
  message \<^verbatim>\<open>User already exists\<close>, and the store of users is unchanged. Whether an
  email is unknown or belongs to a user is what \<^verbatim>\<open>User.findOne({ email })\<close> answers:
  the store compares the trimmed, lower-case form of the email asked for.
\<close>

theorem login_failures_alike_and_duplicate_email_rejected:
  assumes "findByEmail lib us e1 = None"
    and "findByEmail lib us e2 = Some usr"
    and "\<not> compare lib pw2 (password usr)"
  shows "login lib us e2 pw2 = login lib us e1 pw1
       \<and> login lib us e2 pw2 = Inl (Failure 400 ''Invalid credentials'')
       \<and> register lib us nm e2 pw i = (Inl (Failure 400 ''User already exists''), us)"
  using assms by (simp add: login_def register_def)

theorem login_failures_alike_and_duplicate_email_rejected_witness:
  "login keys members '' Dave@Example.com'' ''guess''
     = login keys members ''nobody@example.com'' ''x''
   \<and> login keys members '' Dave@Example.com'' ''guess''
     = Inl (Failure 400 ''Invalid credentials'')
   \<and> register keys members ''Dan'' '' Dave@Example.com'' ''secret1'' ''u7''
       = (Inl (Failure 400 ''User already exists''), members)"
proof -
  have a: "findByEmail keys members ''nobody@example.com'' = None"
    by (simp add: findByEmail_def keys_email_setters members_def)
  have b: "findByEmail keys members '' Dave@Example.com'' = Some (hd members)"
    by (simp add: findByEmail_def keys_email_setters members_def)
  have c: "\<not> compare keys ''guess'' (password (hd members))"
    by (simp add: keys_def members_def)
  show ?thesis
    by (rule login_failures_alike_and_duplicate_email_rejected [OF a b c])
qed

section \<open>Update: the frame\<close>

lemma update_product_frame_lemma:
  assumes "update_product lib ps u i f = (Inr p', ps')"
  shows "\<exists>p. findById ps i = Some p \<and> p' = assign_fields lib f p \<and> ps' = save ps p'"
  using assms
  by (auto simp: update_product_def split: option.splits if_splits)

text \<open>
  C9: for every successful update through \<^verbatim>\<open>PUT /products/:id\<close>, the stored product
  differs from the one before in nothing but name, price, description, category, size,
  color, location and contact number: status, active flag, images, seller, buyer, sale
  date and shipping address are as they were, and so is every other product of the store.
\<close>

theorem update_changes_only_editable_fields:
  assumes "update_product lib ps u i f = (Inr p', ps')"
  shows "\<exists>p. findById ps i = Some p
       \<and> pid p' = pid p \<and> status p' = status p \<and> isActive p' = isActive p
       \<and> images p' = images p \<and> seller p' = seller p \<and> buyer p' = buyer p
       \<and> soldAt p' = soldAt p \<and> shippingAddress p' = shippingAddress p
       \<and> createdAt p' = createdAt p
       \<and> p' = p\<lparr>name := name p', price := price p', description := description p',
                category := category p', size_p := size_p p', color := color p',
                location := location p', contactNumber := contactNumber p'\<rparr>
       \<and> ps' = map (\<lambda>q. if pid q = i then p' else q) ps"
proof -
  from update_product_frame_lemma [OF assms] obtain p where
    p: "findById ps i = Some p" "p' = assign_fields lib f p" "ps' = save ps p'" by blast
  from p(1) have "pid p = i" by (simp add: findById_Some)
  with p show ?thesis by (simp add: assign_fields_def save_def)
qed


theorem update_changes_only_editable_fields_witness:
  "update_product keys [sold_boots] dave ''p1'' sandals_form = (Inr sandals, [sandals])
   \<and> (\<exists>p. findById [sold_boots] ''p1'' = Some p
       \<and> status sandals = status p \<and> isActive sandals = isActive p
       \<and> images sandals = images p \<and> seller sandals = seller p \<and> buyer sandals = buyer p
       \<and> soldAt sandals = soldAt p \<and> shippingAddress sandals = shippingAddress p)
   \<and> status sandals = ''sold'' \<and> name sandals = ''Sandals''"
proof -
  have e: "update_product keys [sold_boots] dave ''p1'' sandals_form = (Inr sandals, [sandals])"
    by (simp add: update_product_def findById_def validate_fields_def assign_fields_def
        save_def keys_def ascii_trim_def is_space_def sandals_form_def sandals_def sold_boots_def boots_def
        dave_def)
  have "status sandals = ''sold'' \<and> name sandals = ''Sandals''"
    by (simp add: sandals_def sold_boots_def)
  with e update_changes_only_editable_fields [OF e] show ?thesis by blast
qed


section \<open>Single product\<close>

lemma findById_unique: "unique_ids ps \<Longrightarrow> p \<in> set ps \<Longrightarrow> findById ps (pid p) = Some p"
  by (induction ps) (auto simp: unique_ids_def findById_def)

text \<open>
  C10: \<^verbatim>\<open>GET /products/:id\<close> asks for no credentials and filters on nothing: for every
  product of a store with unique identifiers, whatever its status and active flag, and
  whatever the \<^verbatim>\<open>Authorization\<close> header (none included), the request with the product's
  identifier is answered with the whole product document, the seller's name and email
  filled in.
\<close>

theorem single_product_needs_no_credentials:
  assumes "unique_ids ps" and "p \<in> set ps"
  shows "route_get_product lib us ps header (pid p) = Inr (populate_seller us p)
       \<and> doc (populate_seller us p) = p"
  using findById_unique [OF assms]
  by (simp add: route_get_product_def get_product_def populate_seller_def)

theorem single_product_needs_no_credentials_witness:
  "route_get_product keys members shelf None ''p2''
     = Inr \<lparr>doc = sold_boots\<lparr>pid := ''p2''\<rparr>,
            seller_doc = Some \<lparr>ref_id = ''u1'', ref_name = ''Dave'', ref_email = ''dave@example.com''\<rparr>\<rparr>
   \<and> status (sold_boots\<lparr>pid := ''p2''\<rparr>) = ''sold'' \<and> \<not> isActive (sold_boots\<lparr>pid := ''p2''\<rparr>)
   \<and> route_list_products keys members shelf None
     = Inl (Failure 401 ''No token, authorization denied'')"
proof -
  have u: "unique_ids shelf" by (simp add: unique_ids_def shelf_def sold_boots_def boots_def)
  have m: "sold_boots\<lparr>pid := ''p2''\<rparr> \<in> set shelf" by (simp add: shelf_def)
  have "route_list_products keys members shelf None
     = Inl (Failure 401 ''No token, authorization denied'')"
    by (simp add: route_list_products_def auth_def)
  then show ?thesis
    using single_product_needs_no_credentials [OF u m, of keys members None]
    by (simp add: populate_seller_def members_def sold_boots_def boots_def)
qed

end
